theory Spec2Isabelle
  imports Main "HOL-Library.Multiset"
begin

section \<open>The module installation pipeline of structor's controller\<close>

text \<open>
  This theory embeds the two pipeline entry points of
  \<^verbatim>\<open>src/src-server/structor/controller.js\<close>: \<^verbatim>\<open>preInstall\<close> (lines 252-308) and
  \<^verbatim>\<open>installFromLocalDir\<close> (lines 310-450).

  Both functions are promise chains over collaborators imported from the package
  \<^verbatim>\<open>structor-commons\<close> (\<^verbatim>\<open>commons\<close>, \<^verbatim>\<open>storage\<close>, \<^verbatim>\<open>gengine\<close>, \<^verbatim>\<open>config\<close>) and over
  Node's \<^verbatim>\<open>path.join\<close>. None of these is defined in the controller, so they are
  parameters of the model (the record \<open>env\<close>): every theorem holds for all
  implementations of them. What is modelled is what the controller itself does: which
  collaborator is called, with which arguments, in which order, and what happens when
  a call rejects.
\<close>

subsection \<open>Data\<close>

type_synonym path = string
type_synonym source_code = string
type_synonym dependency_ref = string

text \<open>
  The rejection reasons. The three \<open>Empty...\<close> errors are the controller's own
  \<^verbatim>\<open>throw Error('Modules directory is empty')\<close> (and \<^verbatim>\<open>Defaults\<close>, \<^verbatim>\<open>Docs\<close>);
  \<open>External\<close> is a rejection of a collaborator, passed on unchanged;
  \<open>TypeError\<close> is \<^verbatim>\<open>path.join\<close> applied to \<^verbatim>\<open>undefined\<close> inside a \<^verbatim>\<open>then\<close> callback
  (a rejection), \<open>SyncTypeError\<close> a TypeError thrown before any promise exists
  (\<^verbatim>\<open>undefined.then\<close>, or \<^verbatim>\<open>path.join(undefined, ...)\<close> in the function body).
\<close>

datatype error =
    SyncTypeError
  | TypeError
  | EmptyModulesDirectory
  | EmptyDefaultsDirectory
  | EmptyDocsDirectory
  | External string

record options =
  dirPath :: "string option"
  url :: "string option"

record namespace_meta =
  reducerPropName :: string

text \<open>
  The object read from \<^verbatim>\<open>structor-namespaces.json\<close>. \<open>namespaces\<close> lists the own
  properties of \<^verbatim>\<open>namespacesMeta.namespaces\<close> in the order \<^verbatim>\<open>forOwn\<close> visits them.
\<close>

record manifest =
  namespaces :: "(string \<times> namespace_meta) list"
  dependencies :: "dependency_ref list"

text \<open>An element of \<^verbatim>\<open>foundFiles.dirs\<close>: \<^verbatim>\<open>{name, path}\<close>.\<close>

record dir_item =
  dir_name :: string
  dir_path :: path

text \<open>
  The object returned by \<^verbatim>\<open>storage.getComponentTree()\<close>. \<open>modules\<close> is \<open>None\<close> when the
  property is missing (falsy). Its values are the module descriptions of the project
  index, objects of an abstract type \<open>'i\<close>: a JavaScript object is truthy, so
  \<^verbatim>\<open>componentTree.modules[name]\<close> is truthy exactly when \<open>name\<close> is a key.
\<close>

record 'i component_tree =
  modules :: "(string \<rightharpoonup> 'i) option"
  reducersSourceCode :: source_code
  reducersFilePath :: path
  sagasSourceCode :: source_code
  sagasFilePath :: path
  indexSourceCode :: source_code
  indexFilePath :: path

record pre_install_result =
  namespacesSrcDirPath :: path
  existingNamespaceDirs :: "string list"

subsection \<open>The collaborators\<close>

text \<open>
  \<open>'w\<close> is the state of everything outside the controller (the file system, the
  project). A read (\<open>readJson\<close>, \<open>getComponentTree\<close>, \<open>readDirectoryFlat\<close>,
  \<open>isExisting\<close>) is a function of that state; a mutation returns the new state, also
  when it rejects. A rejection carries its cause as a string. \<open>readDirectoryFlat\<close>
  resolves to \<^verbatim>\<open>{dirs}\<close>, where \<^verbatim>\<open>dirs\<close> may be missing (\<open>None\<close>). The three \<open>inject\<close>
  functions are \<^verbatim>\<open>gengine\<close>'s source transformers; the three \<open>...DirPath\<close> fields are the
  values of the \<^verbatim>\<open>config\<close> getters.
\<close>

record ('w, 'i) env =
  path_join :: "string list \<Rightarrow> path"
  appDirPath :: path
  componentDefaultsDirPath :: path
  docsComponentsDirPath :: path
  readJson :: "path \<Rightarrow> 'w \<Rightarrow> string + manifest"
  getComponentTree :: "'w \<Rightarrow> string + 'i component_tree"
  readDirectoryFlat :: "path \<Rightarrow> 'w \<Rightarrow> string + dir_item list option"
  isExisting :: "path \<Rightarrow> 'w \<Rightarrow> string option"
  installDependencies :: "dependency_ref list \<Rightarrow> 'w \<Rightarrow> string option \<times> 'w"
  writeFile :: "path \<Rightarrow> source_code \<Rightarrow> 'w \<Rightarrow> string option \<times> 'w"
  removeFile :: "path \<Rightarrow> 'w \<Rightarrow> string option \<times> 'w"
  copyFile :: "path \<Rightarrow> path \<Rightarrow> 'w \<Rightarrow> string option \<times> 'w"
  injectReducer :: "source_code \<Rightarrow> string \<Rightarrow> string \<Rightarrow> path \<Rightarrow> source_code"
  injectSaga :: "source_code \<Rightarrow> string \<Rightarrow> path \<Rightarrow> source_code"
  injectNamespaceComponent :: "source_code \<Rightarrow> string \<Rightarrow> path \<Rightarrow> source_code"

subsection \<open>The log of collaborator calls\<close>

text \<open>
  The three directory groups of the bundle. A group tags the calls made by that group's
  loop of \<^verbatim>\<open>installFromLocalDir\<close>; it is the place of the call in the source, not an
  argument passed to the collaborator.
\<close>

datatype group = Modules | Defaults | Docs

text \<open>The file-system calls whose result the controller ignores (resolve or reject).\<close>

datatype fsop =
    IsExisting path
  | WriteFile path source_code
  | RemoveFile group path
  | CopyFile group path path

text \<open>
  One event per collaborator call, in the order the calls take effect. The flag of an
  event is \<open>True\<close> when the call resolved. \<open>ReadDirectoryFlat\<close> records what the listing
  resolved to (\<open>None\<close>: the call rejected).
\<close>

datatype event =
    ReadJson path bool
  | InstallDependencies "dependency_ref list" bool
  | GetComponentTree bool
  | ReadDirectoryFlat group path "dir_item list option option"
  | Fs fsop bool
  | InjectReducer source_code string string path
  | InjectSaga source_code string path
  | InjectNamespaceComponent source_code string path

text \<open>
  The state threaded through a run: the outside world, the log, the three \<^verbatim>\<open>let\<close>
  accumulators of \<^verbatim>\<open>installFromLocalDir\<close> (each assigned from the component tree before
  its first use), and the reason with which the current \<^verbatim>\<open>Promise.all\<close> has rejected, if
  it has.
\<close>

record 'w state =
  world :: 'w
  trace :: "event list"
  globalReducerSourceCode :: source_code
  globalSagasSourceCode :: source_code
  componentsIndexSourceCode :: source_code
  rejection :: "error option"

definition init_state :: "'w \<Rightarrow> 'w state" where
  "init_state w =
     \<lparr>world = w, trace = [], globalReducerSourceCode = [], globalSagasSourceCode = [],
      componentsIndexSourceCode = [], rejection = None\<rparr>"

definition log :: "event list \<Rightarrow> 'w state \<Rightarrow> 'w state" where
  "log evs st = st\<lparr>trace := trace st @ evs\<rparr>"

subsection \<open>Promise chains\<close>

text \<open>
  A promise is a state transformer that resolves (\<open>Inr\<close>) or rejects (\<open>Inl\<close>).
  \<open>thenP m f\<close> is \<^verbatim>\<open>m.then(f)\<close> without a rejection handler: a rejection of \<open>m\<close> skips \<open>f\<close>.
\<close>

type_synonym ('a, 'w) promise = "'w state \<Rightarrow> (error + 'a) \<times> 'w state"

definition thenP :: "('a, 'w) promise \<Rightarrow> ('a \<Rightarrow> ('b, 'w) promise) \<Rightarrow> ('b, 'w) promise" where
  "thenP m f st = (case m st of (Inl e, st') \<Rightarrow> (Inl e, st') | (Inr x, st') \<Rightarrow> f x st')"

definition commons_readJson :: "('w, 'i) env \<Rightarrow> path \<Rightarrow> (manifest, 'w) promise" where
  "commons_readJson env p st =
     (case readJson env p (world st) of
        Inl e \<Rightarrow> (Inl (External e), log [ReadJson p False] st)
      | Inr m \<Rightarrow> (Inr m, log [ReadJson p True] st))"

definition storage_getComponentTree :: "('w, 'i) env \<Rightarrow> ('i component_tree, 'w) promise" where
  "storage_getComponentTree env st =
     (case getComponentTree env (world st) of
        Inl e \<Rightarrow> (Inl (External e), log [GetComponentTree False] st)
      | Inr t \<Rightarrow> (Inr t, log [GetComponentTree True] st))"

definition storage_installDependencies ::
  "('w, 'i) env \<Rightarrow> dependency_ref list \<Rightarrow> (unit, 'w) promise" where
  "storage_installDependencies env deps st =
     (case installDependencies env deps (world st) of
        (Some e, w') \<Rightarrow> (Inl (External e), log [InstallDependencies deps False] (st\<lparr>world := w'\<rparr>))
      | (None, w') \<Rightarrow> (Inr (), log [InstallDependencies deps True] (st\<lparr>world := w'\<rparr>)))"

text \<open>
  \<^verbatim>\<open>commons.readDirectoryFlat(p).then(foundFiles => ...)\<close> with the emptiness check
  \<^verbatim>\<open>if (!dirs || dirs.length <= 0) throw Error(...)\<close> that follows each listing.
\<close>

fun empty_error :: "group \<Rightarrow> error" where
  "empty_error Modules = EmptyModulesDirectory"
| "empty_error Defaults = EmptyDefaultsDirectory"
| "empty_error Docs = EmptyDocsDirectory"

definition list_dirs :: "('w, 'i) env \<Rightarrow> group \<Rightarrow> path \<Rightarrow> (dir_item list, 'w) promise" where
  "list_dirs env g p st =
     (case readDirectoryFlat env p (world st) of
        Inl e \<Rightarrow> (Inl (External e), log [ReadDirectoryFlat g p None] st)
      | Inr dirs \<Rightarrow>
          (case dirs of
             None \<Rightarrow> (Inl (empty_error g), log [ReadDirectoryFlat g p (Some dirs)] st)
           | Some ds \<Rightarrow>
               if length ds \<le> 0 then (Inl (empty_error g), log [ReadDirectoryFlat g p (Some dirs)] st)
               else (Inr ds, log [ReadDirectoryFlat g p (Some dirs)] st)))"

fun perform :: "('w, 'i) env \<Rightarrow> fsop \<Rightarrow> 'w \<Rightarrow> string option \<times> 'w" where
  "perform env (IsExisting p) w = (isExisting env p w, w)"
| "perform env (WriteFile p t) w = writeFile env p t w"
| "perform env (RemoveFile g p) w = removeFile env p w"
| "perform env (CopyFile g s d) w = copyFile env s d w"

definition commons_writeFile :: "('w, 'i) env \<Rightarrow> path \<Rightarrow> source_code \<Rightarrow> (unit, 'w) promise" where
  "commons_writeFile env p t st =
     (case perform env (WriteFile p t) (world st) of
        (Some e, w') \<Rightarrow> (Inl (External e), log [Fs (WriteFile p t) False] (st\<lparr>world := w'\<rparr>))
      | (None, w') \<Rightarrow> (Inr (), log [Fs (WriteFile p t) True] (st\<lparr>world := w'\<rparr>)))"

subsection \<open>Concurrent tasks joined by \<^verbatim>\<open>Promise.all\<close>\<close>

text \<open>
  Each loop of \<^verbatim>\<open>installFromLocalDir\<close> pushes one promise chain per item onto an array
  and joins the array with \<^verbatim>\<open>Promise.all\<close>. A chain is a task; a task that is not
  settled waits for exactly one file-system call:

  \<^item> \<open>CheckReducer prop value\<close>: \<^verbatim>\<open>commons.isExisting(moduleReducerFilePath)\<close>, issued in
    the body of the \<^verbatim>\<open>forOwn\<close> callback (line 342);
  \<^item> \<open>CheckSagas prop value\<close>: \<^verbatim>\<open>commons.isExisting(moduleSagasFilePath)\<close>, issued by the
    first \<^verbatim>\<open>then\<close> callback (line 344);
  \<^item> \<open>Removing g item\<close>: \<^verbatim>\<open>commons.removeFile(destDirPath)\<close> (lines 384, 408, 442);
  \<^item> \<open>Copying g item\<close>: \<^verbatim>\<open>commons.copyFile(item.path, destDirPath)\<close> (lines 386, 410, 444);
  \<^item> \<open>WritingIndex t\<close>: \<^verbatim>\<open>commons.writeFile(componentTree.indexFilePath, t)\<close>, issued
    by the last callback of a defaults task with the value \<open>t\<close> the accumulator had then
    (line 418).
\<close>

datatype task =
    CheckReducer string namespace_meta
  | CheckSagas string namespace_meta
  | Removing group dir_item
  | Copying group dir_item
  | WritingIndex source_code
  | Settled

text \<open>
  What the callbacks of a run close over. \<open>moduleSagasFilePath\<close> is the variable declared
  with \<^verbatim>\<open>let\<close> at line 337, outside the \<^verbatim>\<open>forOwn\<close> callback: one variable shared by all
  iterations. The first \<^verbatim>\<open>then\<close> callback of a task reads it when the callback runs,
  which is after the synchronous \<^verbatim>\<open>forOwn\<close> loop has finished, so every task reads the
  value assigned by the last iteration. (\<open>moduleReducerFilePath\<close>, declared the same
  way, is read inside the loop body, so each task checks its own reducer path; \<open>prop\<close>
  and \<open>value\<close> are parameters of the callback, one pair per iteration.)
\<close>

record closure =
  modulesSrcDirPath :: path
  moduleSagasFilePath :: path
  modulesDestDirPath :: path
  defaultsDestDirPath :: path
  docsDestDirPath :: path
  treeIndexFilePath :: path

fun destRoot :: "closure \<Rightarrow> group \<Rightarrow> path" where
  "destRoot cx Modules = modulesDestDirPath cx"
| "destRoot cx Defaults = defaultsDestDirPath cx"
| "destRoot cx Docs = docsDestDirPath cx"

definition destDirPath :: "('w, 'i) env \<Rightarrow> closure \<Rightarrow> group \<Rightarrow> dir_item \<Rightarrow> path" where
  "destDirPath env cx g item = path_join env [destRoot cx g, dir_name item]"

text \<open>The call a task waits for.\<close>

fun pending :: "('w, 'i) env \<Rightarrow> closure \<Rightarrow> task \<Rightarrow> fsop option" where
  "pending env cx (CheckReducer prop v) =
     Some (IsExisting (path_join env [modulesSrcDirPath cx, prop, ''reducer.js'']))"
| "pending env cx (CheckSagas prop v) = Some (IsExisting (moduleSagasFilePath cx))"
| "pending env cx (Removing g item) = Some (RemoveFile g (destDirPath env cx g item))"
| "pending env cx (Copying g item) = Some (CopyFile g (dir_path item) (destDirPath env cx g item))"
| "pending env cx (WritingIndex t) = Some (WriteFile (treeIndexFilePath cx) t)"
| "pending env cx Settled = None"

text \<open>
  The callback that runs when the awaited call has resolved. It may assign the
  accumulators, and it either issues the next call of the chain or settles the task.
\<close>

fun resolved :: "('w, 'i) env \<Rightarrow> closure \<Rightarrow> task \<Rightarrow> 'w state \<Rightarrow> task \<times> 'w state" where
  "resolved env cx (CheckReducer prop v) st = (CheckSagas prop v, st)"
| "resolved env cx (CheckSagas prop v) st =
     (let r = globalReducerSourceCode st;
          s = globalSagasSourceCode st;
          rp = path_join env [''modules'', prop, ''reducer.js''];
          sp = path_join env [''modules'', prop, ''sagas.js''];
          r' = injectReducer env r (reducerPropName v) (reducerPropName v @ ''Reducer'') rp;
          s' = injectSaga env s (prop @ ''Sagas'') sp
      in (Settled,
          log [InjectReducer r (reducerPropName v) (reducerPropName v @ ''Reducer'') rp,
               InjectSaga s (prop @ ''Sagas'') sp]
            (st\<lparr>globalReducerSourceCode := r', globalSagasSourceCode := s'\<rparr>)))"
| "resolved env cx (Removing g item) st = (Copying g item, st)"
| "resolved env cx (Copying Defaults item) st =
     (let c = componentsIndexSourceCode st;
          p = path_join env [''modules'', dir_name item];
          c' = injectNamespaceComponent env c (dir_name item) p
      in (WritingIndex c',
          log [InjectNamespaceComponent c (dir_name item) p]
            (st\<lparr>componentsIndexSourceCode := c'\<rparr>)))"
| "resolved env cx (Copying g item) st = (Settled, st)"
| "resolved env cx (WritingIndex t) st = (Settled, st)"
| "resolved env cx Settled st = (Settled, st)"

text \<open>
  A rejected call settles its task; the first rejection is the one \<^verbatim>\<open>Promise.all\<close>
  rejects with. The other tasks are not cancelled.
\<close>

definition rejected :: "string \<Rightarrow> 'w state \<Rightarrow> task \<times> 'w state" where
  "rejected e st =
     (Settled, st\<lparr>rejection := (case rejection st of None \<Rightarrow> Some (External e) | Some x \<Rightarrow> Some x)\<rparr>)"

text \<open>The awaited call of a task takes effect and the task's next callback runs.\<close>

definition step :: "('w, 'i) env \<Rightarrow> closure \<Rightarrow> task \<Rightarrow> 'w state \<Rightarrow> task \<times> 'w state" where
  "step env cx t st =
     (case pending env cx t of
        None \<Rightarrow> (t, st)
      | Some op \<Rightarrow>
          (case perform env op (world st) of
             (Some e, w') \<Rightarrow> rejected e (log [Fs op False] (st\<lparr>world := w'\<rparr>))
           | (None, w') \<Rightarrow> resolved env cx t (log [Fs op True] (st\<lparr>world := w'\<rparr>))))"

text \<open>
  The order in which the awaited calls of different tasks complete is not fixed by the
  program. It is an input of the model: a schedule is a list of numbers, and the next
  call to complete is that of the \<open>k\<close>-th unsettled task (modulo their number), \<open>k\<close> being
  the head of the schedule (\<open>0\<close> when the schedule is used up). Every interleaving of
  the tasks is the run of some schedule.
\<close>

definition unsettled :: "task list \<Rightarrow> nat list" where
  "unsettled ts = filter (\<lambda>i. ts ! i \<noteq> Settled) [0..<length ts]"

definition next_task :: "nat list \<Rightarrow> nat list \<Rightarrow> nat" where
  "next_task sched us = us ! ((case sched of [] \<Rightarrow> 0 | k # _ \<Rightarrow> k) mod length us)"

text \<open>The number of calls a task may still make; it bounds the length of a run.\<close>

fun weight :: "task \<Rightarrow> nat" where
  "weight (CheckReducer prop v) = 2"
| "weight (CheckSagas prop v) = 1"
| "weight (Removing g item) = 3"
| "weight (Copying g item) = 2"
| "weight (WritingIndex t) = 1"
| "weight Settled = 0"

function run_tasks ::
  "('w, 'i) env \<Rightarrow> closure \<Rightarrow> nat list \<Rightarrow> task list \<Rightarrow> 'w state \<Rightarrow> 'w state" where
  "run_tasks env cx sched ts st =
     (if unsettled ts = [] then st
      else let i = next_task sched (unsettled ts);
               r = step env cx (ts ! i) st
           in run_tasks env cx (tl sched) (ts[i := fst r]) (snd r))"
  by pat_completeness auto
termination
proof (relation "measure (\<lambda>(env, cx, sched, ts, st). sum_list (map weight ts))", goal_cases)
  case 1
  then show ?case by simp
next
  case (2 env cx sched ts st i r)
  have upd: "k < length xs \<Longrightarrow>
      sum_list (map weight (xs[k := y])) + weight (xs ! k) = sum_list (map weight xs) + weight y"
    for k xs y
  proof (induction xs arbitrary: k)
    case Nil
    then show ?case by simp
  next
    case (Cons x xs)
    then show ?case by (cases k) auto
  qed
  have "i \<in> set (unsettled ts)"
    using 2 by (simp add: next_task_def)
  then have i: "i < length ts" "ts ! i \<noteq> Settled"
    by (simp_all add: unsettled_def)
  have res: "weight (fst (resolved env cx t s)) < weight t" if "t \<noteq> Settled"
    for t and s :: "'a state"
    using that by (induction env cx t s rule: resolved.induct) (simp_all add: Let_def)
  have pos: "0 < weight t" if "t \<noteq> Settled" for t
    using that by (cases t) simp_all
  have "weight (fst (step env cx t s)) < weight t" if "t \<noteq> Settled"
    for t and s :: "'a state"
  proof (cases "pending env cx t")
    case None
    with that show ?thesis by (cases t) simp_all
  next
    case (Some op)
    with res [OF that] pos [OF that] show ?thesis
      by (simp add: step_def rejected_def split: option.split prod.split)
  qed
  then have "weight (fst r) < weight (ts ! i)"
    using 2 i by simp
  moreover have "sum_list (map weight (ts[i := fst r])) + weight (ts ! i)
      = sum_list (map weight ts) + weight (fst r)"
    using i by (simp add: upd)
  ultimately show ?case by simp
qed

text \<open>
  \<^verbatim>\<open>Promise.all(tasks)\<close>: resolves when every task has resolved, rejects with the first
  rejection. The state returned is the one reached when every task has settled, so it
  includes what the tasks still running at the moment of the rejection go on to do.
\<close>

definition promise_all ::
  "('w, 'i) env \<Rightarrow> closure \<Rightarrow> nat list \<Rightarrow> task list \<Rightarrow> (unit, 'w) promise" where
  "promise_all env cx sched ts st =
     (let st' = run_tasks env cx sched ts (st\<lparr>rejection := None\<rparr>)
      in case rejection st' of None \<Rightarrow> (Inr (), st') | Some e \<Rightarrow> (Inl e, st'))"

subsection \<open>\<^verbatim>\<open>preInstall\<close>\<close>

text \<open>\<^verbatim>\<open>if (dirPath)\<close>: a missing property and the empty string are both falsy.\<close>

definition truthy :: "string option \<Rightarrow> bool" where
  "truthy v = (case v of None \<Rightarrow> False | Some s \<Rightarrow> s \<noteq> [])"

text \<open>\<^verbatim>\<open>componentTree.modules && componentTree.modules[module.name]\<close> (line 297).\<close>

definition in_index :: "'i component_tree \<Rightarrow> string \<Rightarrow> bool" where
  "in_index tree n = (case modules tree of None \<Rightarrow> False | Some m \<Rightarrow> m n \<noteq> None)"

text \<open>The \<^verbatim>\<open>forEach\<close> of lines 296-300, pushing onto \<^verbatim>\<open>existingNamespaceDirs\<close>.\<close>

definition collect_existing :: "'i component_tree \<Rightarrow> dir_item list \<Rightarrow> string list" where
  "collect_existing tree modulesDirs =
     foldl (\<lambda>existing module.
              if in_index tree (dir_name module) then existing @ [dir_name module] else existing)
       [] modulesDirs"

text \<open>
  Lines 252-308. With a truthy \<^verbatim>\<open>dirPath\<close> the bundle root is \<^verbatim>\<open>dirPath\<close>. With only a
  truthy \<^verbatim>\<open>url\<close> the chain starts, but \<^verbatim>\<open>namespacesSrcDirPath\<close> is still undefined when
  the first callback calls \<^verbatim>\<open>path.join\<close> (the download is a todo), which rejects. With
  neither, \<^verbatim>\<open>startPromise\<close> is undefined and \<^verbatim>\<open>startPromise.then\<close> throws. The manifest is
  read (a missing or unparseable file rejects) and its content is not used.
\<close>

definition preInstall :: "('w, 'i) env \<Rightarrow> options \<Rightarrow> (pre_install_result, 'w) promise" where
  "preInstall env opts st =
     (if truthy (dirPath opts) \<or> truthy (url opts) then
        (case (if truthy (dirPath opts) then dirPath opts else None) of
           None \<Rightarrow> (Inl TypeError, st)
         | Some srcDirPath \<Rightarrow>
             thenP (commons_readJson env (path_join env [srcDirPath, ''structor-namespaces.json'']))
               (\<lambda>metaObj.
             thenP (storage_getComponentTree env)
               (\<lambda>componentTree.
             thenP (list_dirs env Modules (path_join env [srcDirPath, ''modules'']))
               (\<lambda>modulesDirs st'.
                  (Inr \<lparr>namespacesSrcDirPath = srcDirPath,
                        existingNamespaceDirs = collect_existing componentTree modulesDirs\<rparr>,
                   st')))) st)
      else (Inl SyncTypeError, st))"

subsection \<open>\<^verbatim>\<open>installFromLocalDir\<close>\<close>

text \<open>One completion order for each of the four \<^verbatim>\<open>Promise.all\<close> joins of a run.\<close>

record schedules =
  rewriteOrder :: "nat list"
  modulesOrder :: "nat list"
  defaultsOrder :: "nat list"
  docsOrder :: "nat list"

text \<open>
  The value of the shared variable \<^verbatim>\<open>moduleSagasFilePath\<close> once the \<^verbatim>\<open>forOwn\<close> loop of
  lines 338-360 has run: every iteration overwrites it. (It is undefined before the
  first iteration, written \<open>[]\<close> here, and in that case no task exists that reads it.)
\<close>

definition sagas_path_after_loop ::
  "('w, 'i) env \<Rightarrow> path \<Rightarrow> (string \<times> namespace_meta) list \<Rightarrow> path" where
  "sagas_path_after_loop env srcDir nss =
     foldl (\<lambda>current (prop, v). path_join env [srcDir, prop, ''sagas.js'']) [] nss"

definition closure_of :: "('w, 'i) env \<Rightarrow> path \<Rightarrow> manifest \<Rightarrow> 'i component_tree \<Rightarrow> closure" where
  "closure_of env d meta tree =
     \<lparr>modulesSrcDirPath = path_join env [d, ''modules''],
      moduleSagasFilePath =
        sagas_path_after_loop env (path_join env [d, ''modules'']) (namespaces meta),
      modulesDestDirPath = path_join env [appDirPath env, ''modules''],
      defaultsDestDirPath = componentDefaultsDirPath env,
      docsDestDirPath = docsComponentsDirPath env,
      treeIndexFilePath = indexFilePath tree\<rparr>"

text \<open>
  Lines 331-368: one task per namespace of the manifest, joined, then the two
  write-backs, the second only when the first resolved.
\<close>

definition rewrite_tasks :: "manifest \<Rightarrow> task list" where
  "rewrite_tasks meta = map (\<lambda>(prop, v). CheckReducer prop v) (namespaces meta)"

definition rewrite_stage ::
  "('w, 'i) env \<Rightarrow> closure \<Rightarrow> nat list \<Rightarrow> manifest \<Rightarrow> 'i component_tree \<Rightarrow> (unit, 'w) promise" where
  "rewrite_stage env cx sched meta tree st =
     thenP (promise_all env cx sched (rewrite_tasks meta))
       (\<lambda>_.
     thenP (\<lambda>st'. commons_writeFile env (reducersFilePath tree) (globalReducerSourceCode st') st')
       (\<lambda>_ st'. commons_writeFile env (sagasFilePath tree) (globalSagasSourceCode st') st'))
       (st\<lparr>globalReducerSourceCode := reducersSourceCode tree,
           globalSagasSourceCode := sagasSourceCode tree\<rparr>)"

text \<open>
  Lines 379-391, 402-426 and 437-449: one task per listed directory, joined. The
  defaults loop first initialises \<^verbatim>\<open>componentsIndexSourceCode\<close>.
\<close>

definition copy_stage ::
  "('w, 'i) env \<Rightarrow> closure \<Rightarrow> nat list \<Rightarrow> group \<Rightarrow> 'i component_tree \<Rightarrow> dir_item list \<Rightarrow>
   (unit, 'w) promise" where
  "copy_stage env cx sched g tree dirs st =
     promise_all env cx sched (map (Removing g) dirs)
       (case g of
          Defaults \<Rightarrow> st\<lparr>componentsIndexSourceCode := indexSourceCode tree\<rparr>
        | _ \<Rightarrow> st)"

text \<open>
  One directory group (lines 369-391 for the modules, 392-426 for the defaults, 427-449
  for the docs): the group is listed, checked for emptiness and copied.
\<close>

definition stage_group ::
  "('w, 'i) env \<Rightarrow> closure \<Rightarrow> nat list \<Rightarrow> group \<Rightarrow> 'i component_tree \<Rightarrow> path \<Rightarrow> (unit, 'w) promise" where
  "stage_group env cx sched g componentTree srcDirPath =
     thenP (list_dirs env g srcDirPath) (copy_stage env cx sched g componentTree)"

text \<open>
  Lines 369-449: the three groups, strictly in the order modules, defaults, docs; a group
  is listed only when the group before it has been copied.
\<close>

definition stage_directories ::
  "('w, 'i) env \<Rightarrow> closure \<Rightarrow> schedules \<Rightarrow> 'i component_tree \<Rightarrow> path \<Rightarrow> (unit, 'w) promise" where
  "stage_directories env cx sch componentTree d =
     thenP (stage_group env cx (modulesOrder sch) Modules componentTree (path_join env [d, ''modules'']))
       (\<lambda>_.
     thenP (stage_group env cx (defaultsOrder sch) Defaults componentTree (path_join env [d, ''defaults'']))
       (\<lambda>_.
     stage_group env cx (docsOrder sch) Docs componentTree (path_join env [d, ''docs''])))"

text \<open>
  Lines 310-450. \<^verbatim>\<open>path.join(dirPath, ...)\<close> in the function body throws when
  \<^verbatim>\<open>dirPath\<close> is missing.
\<close>

definition installFromLocalDir :: "('w, 'i) env \<Rightarrow> schedules \<Rightarrow> options \<Rightarrow> (unit, 'w) promise" where
  "installFromLocalDir env sch opts st =
     (case dirPath opts of
        None \<Rightarrow> (Inl SyncTypeError, st)
      | Some d \<Rightarrow>
          thenP (commons_readJson env (path_join env [d, ''structor-namespaces.json'']))
            (\<lambda>namespacesMeta.
          thenP (storage_installDependencies env (dependencies namespacesMeta))
            (\<lambda>_.
          thenP (storage_getComponentTree env)
            (\<lambda>componentTree.
          thenP (rewrite_stage env (closure_of env d namespacesMeta componentTree)
                   (rewriteOrder sch) namespacesMeta componentTree)
            (\<lambda>_.
          stage_directories env (closure_of env d namespacesMeta componentTree) sch
            componentTree d)))) st)"

subsection \<open>What a log says\<close>

text \<open>The arguments of the reducer and of the side-effect injections of a log, in order.\<close>

fun reducer_injections :: "event list \<Rightarrow> (string \<times> string \<times> path) list" where
  "reducer_injections [] = []"
| "reducer_injections (InjectReducer t symbol ident p # es) = (symbol, ident, p) # reducer_injections es"
| "reducer_injections (e # es) = reducer_injections es"

fun saga_injections :: "event list \<Rightarrow> (string \<times> path) list" where
  "saga_injections [] = []"
| "saga_injections (InjectSaga t ident p # es) = (ident, p) # saga_injections es"
| "saga_injections (e # es) = saga_injections es"

text \<open>The texts passed to \<^verbatim>\<open>commons.writeFile\<close> for the file \<open>p\<close>, in order.\<close>

fun writes_to :: "path \<Rightarrow> event list \<Rightarrow> source_code list" where
  "writes_to p [] = []"
| "writes_to p (Fs (WriteFile q t) ok # es) = (if q = p then t # writes_to p es else writes_to p es)"
| "writes_to p (e # es) = writes_to p es"

text \<open>Calls that only read, and calls that change files.\<close>

fun is_read :: "event \<Rightarrow> bool" where
  "is_read (ReadJson p ok) = True"
| "is_read (GetComponentTree ok) = True"
| "is_read (ReadDirectoryFlat g p r) = True"
| "is_read (Fs (IsExisting p) ok) = True"
| "is_read e = False"

fun is_file_mutation :: "event \<Rightarrow> bool" where
  "is_file_mutation (Fs (WriteFile p t) ok) = True"
| "is_file_mutation (Fs (RemoveFile g p) ok) = True"
| "is_file_mutation (Fs (CopyFile g s d) ok) = True"
| "is_file_mutation e = False"


text \<open>
  The injections the manifest asks for: for a namespace \<open>prop\<close> with \<open>reducerPropName\<close>
  \<open>r\<close>, the reducer injection of symbol \<open>r\<close>, identifier \<^verbatim>\<open>${r}Reducer\<close> and import
  path \<^verbatim>\<open>modules/prop/reducer.js\<close>, and the side-effect injection of identifier
  \<^verbatim>\<open>${prop}Sagas\<close> and import path \<^verbatim>\<open>modules/prop/sagas.js\<close>.
\<close>

definition reducer_injection_of ::
  "('w, 'i) env \<Rightarrow> string \<times> namespace_meta \<Rightarrow> string \<times> string \<times> path" where
  "reducer_injection_of env ns =
     (reducerPropName (snd ns), reducerPropName (snd ns) @ ''Reducer'',
      path_join env [''modules'', fst ns, ''reducer.js''])"

definition saga_injection_of :: "('w, 'i) env \<Rightarrow> string \<times> namespace_meta \<Rightarrow> string \<times> path" where
  "saga_injection_of env ns = (fst ns @ ''Sagas'', path_join env [''modules'', fst ns, ''sagas.js''])"

text \<open>The text that results from applying a sequence of injections, one on top of the other.\<close>

definition apply_reducer_injections ::
  "('w, 'i) env \<Rightarrow> source_code \<Rightarrow> (string \<times> string \<times> path) list \<Rightarrow> source_code" where
  "apply_reducer_injections env t injs =
     foldl (\<lambda>acc (symbol, ident, p). injectReducer env acc symbol ident p) t injs"

definition apply_saga_injections ::
  "('w, 'i) env \<Rightarrow> source_code \<Rightarrow> (string \<times> path) list \<Rightarrow> source_code" where
  "apply_saga_injections env t injs = foldl (\<lambda>acc (ident, p). injectSaga env acc ident p) t injs"

text \<open>Whether the call of an event resolved, and the successful copies of a group.\<close>

fun succeeded :: "event \<Rightarrow> bool" where
  "succeeded (Fs op ok) = ok"
| "succeeded (ReadJson p ok) = ok"
| "succeeded (InstallDependencies deps ok) = ok"
| "succeeded (GetComponentTree ok) = ok"
| "succeeded (ReadDirectoryFlat g p r) = (r \<noteq> None)"
| "succeeded e = True"

fun copies :: "group \<Rightarrow> event list \<Rightarrow> (path \<times> path) list" where
  "copies g [] = []"
| "copies g (Fs (CopyFile g' s d) True # es) = (if g' = g then (s, d) # copies g es else copies g es)"
| "copies g (e # es) = copies g es"

definition copy_of :: "('w, 'i) env \<Rightarrow> closure \<Rightarrow> group \<Rightarrow> dir_item \<Rightarrow> path \<times> path" where
  "copy_of env cx g item = (dir_path item, destDirPath env cx g item)"

text \<open>
  The destinations that a log leaves removed: a successful \<^verbatim>\<open>removeFile\<close> of a
  destination marks it, a later successful \<^verbatim>\<open>copyFile\<close> to it clears the mark.
\<close>

fun note_removal :: "(group \<times> path) set \<Rightarrow> event \<Rightarrow> (group \<times> path) set" where
  "note_removal S (Fs (RemoveFile g p) True) = insert (g, p) S"
| "note_removal S (Fs (CopyFile g s p) True) = S - {(g, p)}"
| "note_removal S e = S"

definition pending_removals :: "event list \<Rightarrow> (group \<times> path) set" where
  "pending_removals tr = foldl note_removal {} tr"



subsection \<open>Invariants of a run of tasks\<close>

text \<open>The kinds of tasks and of events of the namespace loop and of a directory group.\<close>

fun rewrite_task :: "task \<Rightarrow> bool" where
  "rewrite_task (CheckReducer prop v) = True"
| "rewrite_task (CheckSagas prop v) = True"
| "rewrite_task Settled = True"
| "rewrite_task t = False"

fun rewrite_event :: "event \<Rightarrow> bool" where
  "rewrite_event (Fs (IsExisting p) ok) = True"
| "rewrite_event (InjectReducer t symbol ident p) = True"
| "rewrite_event (InjectSaga t ident p) = True"
| "rewrite_event e = False"

fun copy_task :: "group \<Rightarrow> task \<Rightarrow> bool" where
  "copy_task g (Removing g' item) = (g' = g)"
| "copy_task g (Copying g' item) = (g' = g)"
| "copy_task g (WritingIndex t) = (g = Defaults)"
| "copy_task g Settled = True"
| "copy_task g t = False"

fun copy_event :: "path \<Rightarrow> group \<Rightarrow> event \<Rightarrow> bool" where
  "copy_event idx g (Fs (RemoveFile g' p) ok) = (g' = g)"
| "copy_event idx g (Fs (CopyFile g' s d) ok) = (g' = g)"
| "copy_event idx g (Fs (WriteFile p t) ok) = (g = Defaults \<and> p = idx)"
| "copy_event idx g (InjectNamespaceComponent c n p) = (g = Defaults)"
| "copy_event idx g e = False"

text \<open>What a task has still to contribute: its namespace, or its directory.\<close>

fun owed :: "task \<Rightarrow> (string \<times> namespace_meta) multiset" where
  "owed (CheckReducer prop v) = {#(prop, v)#}"
| "owed (CheckSagas prop v) = {#(prop, v)#}"
| "owed t = {#}"

fun owed_item :: "task \<Rightarrow> dir_item multiset" where
  "owed_item (Removing g item) = {#item#}"
| "owed_item (Copying g item) = {#item#}"
| "owed_item t = {#}"

definition copying_dests :: "('w, 'i) env \<Rightarrow> closure \<Rightarrow> task list \<Rightarrow> (group \<times> path) set" where
  "copying_dests env cx ts = {(g, destDirPath env cx g item) | g item. Copying g item \<in> set ts}"


definition rewrite_inv ::
  "('w, 'i) env \<Rightarrow> 'w state \<Rightarrow> (string \<times> namespace_meta) multiset \<Rightarrow> task list \<Rightarrow> 'w state \<Rightarrow> bool" where
  "rewrite_inv env st0 allns ts st \<longleftrightarrow>
     world st = world st0 \<and>
     componentsIndexSourceCode st = componentsIndexSourceCode st0 \<and>
     (rejection st = None \<or> (\<exists>e. rejection st = Some (External e))) \<and>
     (\<forall>t\<in>set ts. rewrite_task t) \<and>
     (\<exists>evs. trace st = trace st0 @ evs \<and> (\<forall>e\<in>set evs. rewrite_event e) \<and>
        globalReducerSourceCode st
          = apply_reducer_injections env (globalReducerSourceCode st0) (reducer_injections evs) \<and>
        globalSagasSourceCode st
          = apply_saga_injections env (globalSagasSourceCode st0) (saga_injections evs) \<and>
        (rejection st = None \<longrightarrow>
           image_mset (reducer_injection_of env) (sum_list (map owed ts)) + mset (reducer_injections evs)
             = image_mset (reducer_injection_of env) allns \<and>
           image_mset (saga_injection_of env) (sum_list (map owed ts)) + mset (saga_injections evs)
             = image_mset (saga_injection_of env) allns))"

definition copy_inv ::
  "('w, 'i) env \<Rightarrow> closure \<Rightarrow> group \<Rightarrow> 'w state \<Rightarrow> dir_item multiset \<Rightarrow> task list \<Rightarrow> 'w state \<Rightarrow> bool" where
  "copy_inv env cx g st0 items ts st \<longleftrightarrow>
     (rejection st = None \<or> (\<exists>e. rejection st = Some (External e))) \<and>
     (\<forall>t\<in>set ts. copy_task g t) \<and>
     (\<exists>evs. trace st = trace st0 @ evs \<and>
        (\<forall>e\<in>set evs. copy_event (treeIndexFilePath cx) g e) \<and>
        (rejection st = None \<longrightarrow>
           (\<forall>e\<in>set evs. succeeded e) \<and>
           image_mset (copy_of env cx g) (sum_list (map owed_item ts)) + mset (copies g evs)
             = image_mset (copy_of env cx g) items))"

definition pending_inv ::
  "('w, 'i) env \<Rightarrow> closure \<Rightarrow> (group \<times> path) set \<Rightarrow> task list \<Rightarrow> 'w state \<Rightarrow> bool" where
  "pending_inv env cx S ts st \<longleftrightarrow>
     (rejection st = None \<longrightarrow> pending_removals (trace st) \<subseteq> S \<union> copying_dests env cx ts)"

text \<open>The events of the three directory groups, \<open>idx\<close> being the path of the index file.\<close>

fun staging_event :: "path \<Rightarrow> event \<Rightarrow> bool" where
  "staging_event idx (ReadDirectoryFlat g p r) = True"
| "staging_event idx (Fs (RemoveFile g p) ok) = True"
| "staging_event idx (Fs (CopyFile g s d) ok) = True"
| "staging_event idx (Fs (WriteFile p t) ok) = (p = idx)"
| "staging_event idx (InjectNamespaceComponent c n p) = True"
| "staging_event idx e = False"

text \<open>
  A promise only appends events of a kind \<open>K\<close> to the log; a promise preserves a property
  of the log.
\<close>

definition emits :: "(event \<Rightarrow> bool) \<Rightarrow> ('a, 'w) promise \<Rightarrow> bool" where
  "emits K m \<longleftrightarrow>
     (\<forall>st r st'. m st = (r, st') \<longrightarrow> (\<exists>evs. trace st' = trace st @ evs \<and> (\<forall>e\<in>set evs. K e)))"


text \<open>
  The first three calls of a run of \<^verbatim>\<open>installFromLocalDir\<close> that gets past them: the
  manifest is read, the dependencies are installed, the component tree is read.
\<close>

definition prologue :: "('w, 'i) env \<Rightarrow> path \<Rightarrow> manifest \<Rightarrow> event list" where
  "prologue env d meta =
     [ReadJson (path_join env [d, ''structor-namespaces.json'']) True,
      InstallDependencies (dependencies meta) True,
      GetComponentTree True]"


text \<open>
  The source directory of a group inside the bundle, the groups processed before a group,
  and the destination of a directory of a group (lines 316-318, 382, 406, 440).
\<close>

fun group_dir :: "group \<Rightarrow> string" where
  "group_dir Modules = ''modules''"
| "group_dir Defaults = ''defaults''"
| "group_dir Docs = ''docs''"

fun groups_before :: "group \<Rightarrow> group list" where
  "groups_before Modules = []"
| "groups_before Defaults = [Modules]"
| "groups_before Docs = [Modules, Defaults]"

fun dest_root :: "('w, 'i) env \<Rightarrow> group \<Rightarrow> path" where
  "dest_root env Modules = path_join env [appDirPath env, ''modules'']"
| "dest_root env Defaults = componentDefaultsDirPath env"
| "dest_root env Docs = docsComponentsDirPath env"

definition install_dest :: "('w, 'i) env \<Rightarrow> group \<Rightarrow> dir_item \<Rightarrow> path" where
  "install_dest env g item = path_join env [dest_root env g, dir_name item]"

text \<open>
  A log shows a group as staged: its listing found directories, and the successful copies
  of the group are exactly one copy of each listed directory to its destination.
\<close>

definition group_staged :: "('w, 'i) env \<Rightarrow> path \<Rightarrow> group \<Rightarrow> event list \<Rightarrow> bool" where
  "group_staged env d g tr \<longleftrightarrow>
     (\<exists>ds. ds \<noteq> [] \<and>
        ReadDirectoryFlat g (path_join env [d, group_dir g]) (Some (Some ds)) \<in> set tr \<and>
        mset (copies g tr) = image_mset (\<lambda>item. (dir_path item, install_dest env g item)) (mset ds))"

text \<open>
  A listing of group \<open>g\<close> that found no subdirectory; the agreement of the result of a run
  with its log: the run rejects with the error of a group exactly when the log holds
  such a listing of that group.
\<close>

fun found_empty :: "group \<Rightarrow> event \<Rightarrow> bool" where
  "found_empty g (ReadDirectoryFlat g' p (Some None)) = (g' = g)"
| "found_empty g (ReadDirectoryFlat g' p (Some (Some ds))) = (g' = g \<and> ds = [])"
| "found_empty g e = False"

definition verdict :: "error + 'a \<Rightarrow> event list \<Rightarrow> bool" where
  "verdict r tr \<longleftrightarrow> (\<forall>g. (\<exists>e\<in>set tr. found_empty g e) \<longleftrightarrow> r = Inl (empty_error g))"

definition careful :: "('a, 'w) promise \<Rightarrow> bool" where
  "careful m \<longleftrightarrow>
     (\<forall>st r st'. m st = (r, st') \<longrightarrow> (\<forall>g. \<forall>e\<in>set (trace st). \<not> found_empty g e) \<longrightarrow>
        verdict r (trace st'))"

text \<open>
  The groups \<open>gs\<close> are staged in a log, no destination is left removed, and no other
  group has been copied.
\<close>

definition staged_so_far :: "('w, 'i) env \<Rightarrow> path \<Rightarrow> group list \<Rightarrow> event list \<Rightarrow> bool" where
  "staged_so_far env d gs tr \<longleftrightarrow>
     (\<forall>g\<in>set gs. group_staged env d g tr) \<and> pending_removals tr = {} \<and>
     (\<forall>g. g \<notin> set gs \<longrightarrow> copies g tr = [])"

subsection \<open>A concrete project and bundle\<close>

text \<open>
  A small instance of the collaborators, used to run the model on concrete inputs. The
  world is a disk, a list of entries (path and content, a directory being one entry),
  and the parsed content of the bundle's manifest file, if the file can be read. Paths
  are joined with a slash. The component tree and the directory listings are fixed
  tables; \<open>depsOk\<close> says whether the dependency installation resolves.
\<close>

type_synonym disk = "(path \<times> string) list"

record sample_world =
  disk :: disk
  manifest_json :: "manifest option"

fun slash_join :: "string list \<Rightarrow> path" where
  "slash_join [] = ''.''"
| "slash_join [x] = x"
| "slash_join (x # y # ys) = x @ ''/'' @ slash_join (y # ys)"

definition disk_remove :: "path \<Rightarrow> disk \<Rightarrow> disk" where
  "disk_remove p w = filter (\<lambda>entry. fst entry \<noteq> p) w"

definition disk_copy :: "path \<Rightarrow> path \<Rightarrow> disk \<Rightarrow> string option \<times> disk" where
  "disk_copy s d w =
     (case map_of w s of
        None \<Rightarrow> (Some ''ENOENT'', w)
      | Some content \<Rightarrow> (None, (d, content) # disk_remove d w))"

text \<open>
  Modelled from the spec: \<^verbatim>\<open>gengine.injectReducer\<close>, \<^verbatim>\<open>gengine.injectSaga\<close> and
  \<^verbatim>\<open>gengine.injectNamespaceComponent\<close> are not part of the controller. Section 4.3 of the
  specification describes the injector as a pure function producing text that contains
  an import line pointing at the import path and a registration entry mapping the
  symbol name (for the component index, the namespace name) to the derived identifier,
  a side-effect registration being anchored by its import only, with no check for
  entries already present. The instance puts the import line in front of the text and
  the registration entry behind it.
\<close>

definition import_line :: "string \<Rightarrow> path \<Rightarrow> source_code" where
  "import_line ident p = ''import '' @ ident @ '' from '' @ p @ ''; ''"

definition spec_injectReducer :: "source_code \<Rightarrow> string \<Rightarrow> string \<Rightarrow> path \<Rightarrow> source_code" where
  "spec_injectReducer t symbol ident p = import_line ident p @ t @ symbol @ '': '' @ ident @ '', ''"

definition spec_injectSaga :: "source_code \<Rightarrow> string \<Rightarrow> path \<Rightarrow> source_code" where
  "spec_injectSaga t ident p = import_line ident p @ t @ ident @ '', ''"

definition spec_injectNamespaceComponent :: "source_code \<Rightarrow> string \<Rightarrow> path \<Rightarrow> source_code" where
  "spec_injectNamespaceComponent t n p = import_line n p @ t @ n @ '', ''"

definition sample_env ::
  "unit component_tree \<Rightarrow> (path \<times> dir_item list) list \<Rightarrow> bool \<Rightarrow> (sample_world, unit) env" where
  "sample_env tree listing depsOk =
     \<lparr>path_join = slash_join,
      appDirPath = ''app'',
      componentDefaultsDirPath = ''app/defaults'',
      docsComponentsDirPath = ''app/docs'',
      readJson = (\<lambda>p w. case manifest_json w of None \<Rightarrow> Inl ''ENOENT'' | Some meta \<Rightarrow> Inr meta),
      getComponentTree = (\<lambda>w. Inr tree),
      readDirectoryFlat = (\<lambda>p w. Inr (map_of listing p)),
      isExisting = (\<lambda>p w. case map_of (disk w) p of None \<Rightarrow> Some ''ENOENT'' | Some content \<Rightarrow> None),
      installDependencies = (\<lambda>deps w. (if depsOk then None else Some ''npm'', w)),
      writeFile = (\<lambda>p t w. (None, w\<lparr>disk := (p, t) # disk_remove p (disk w)\<rparr>)),
      removeFile = (\<lambda>p w. (None, w\<lparr>disk := disk_remove p (disk w)\<rparr>)),
      copyFile = (\<lambda>s d w. case disk_copy s d (disk w) of (r, files) \<Rightarrow> (r, w\<lparr>disk := files\<rparr>)),
      injectReducer = spec_injectReducer,
      injectSaga = spec_injectSaga,
      injectNamespaceComponent = spec_injectNamespaceComponent\<rparr>"

definition sample_tree :: "string list \<Rightarrow> unit component_tree" where
  "sample_tree installed =
     \<lparr>modules = Some (map_of (map (\<lambda>n. (n, ())) installed)),
      reducersSourceCode = [], reducersFilePath = ''app/reducers.js'',
      sagasSourceCode = [], sagasFilePath = ''app/sagas.js'',
      indexSourceCode = [], indexFilePath = ''app/index.js''\<rparr>"

definition sample_dir :: "path \<Rightarrow> string \<Rightarrow> dir_item" where
  "sample_dir root n = \<lparr>dir_name = n, dir_path = slash_join [root, n]\<rparr>"

definition in_order :: schedules where
  "in_order = \<lparr>rewriteOrder = [], modulesOrder = [], defaultsOrder = [], docsOrder = []\<rparr>"

text \<open>
  The bundle \<^verbatim>\<open>b\<close> of the specification's end-to-end scenario: one namespace \<open>auth\<close>
  with \<open>reducerPropName\<close> \<open>auth\<close>, present in each of the three groups.
\<close>

definition auth_manifest :: manifest where
  "auth_manifest = \<lparr>namespaces = [(''auth'', \<lparr>reducerPropName = ''auth''\<rparr>)], dependencies = []\<rparr>"

definition auth_listing :: "(path \<times> dir_item list) list" where
  "auth_listing =
     [(''b/modules'', [sample_dir ''b/modules'' ''auth'']),
      (''b/defaults'', [sample_dir ''b/defaults'' ''auth'']),
      (''b/docs'', [sample_dir ''b/docs'' ''auth''])]"

definition auth_world :: sample_world where
  "auth_world =
     \<lparr>disk = [(''b/modules/auth'', ''M''), (''b/modules/auth/reducer.js'', ''R''),
              (''b/modules/auth/sagas.js'', ''S''), (''b/defaults/auth'', ''D''),
              (''b/docs/auth'', ''O'')],
      manifest_json = Some auth_manifest\<rparr>"

definition from_b :: options where
  "from_b = \<lparr>dirPath = Some ''b'', url = None\<rparr>"

text \<open>
  Variants of the bundle: one with an empty \<^verbatim>\<open>defaults\<close> directory, one with an empty
  \<^verbatim>\<open>modules\<close> directory, and a bundle of two namespaces \<open>a\<close> and \<open>b\<close> in which
  \<^verbatim>\<open>modules/a/sagas.js\<close> is missing. The runs of \<^verbatim>\<open>installFromLocalDir\<close> on these bundles
  complete the concurrent calls in the order in which they were issued.
\<close>

definition no_defaults_listing :: "(path \<times> dir_item list) list" where
  "no_defaults_listing =
     [(''b/modules'', [sample_dir ''b/modules'' ''auth'']),
      (''b/defaults'', []),
      (''b/docs'', [sample_dir ''b/docs'' ''auth''])]"

definition no_modules_listing :: "(path \<times> dir_item list) list" where
  "no_modules_listing =
     [(''b/modules'', []),
      (''b/defaults'', [sample_dir ''b/defaults'' ''auth'']),
      (''b/docs'', [sample_dir ''b/docs'' ''auth''])]"

definition two_manifest :: manifest where
  "two_manifest =
     \<lparr>namespaces = [(''a'', \<lparr>reducerPropName = ''a''\<rparr>), (''b'', \<lparr>reducerPropName = ''b''\<rparr>)],
      dependencies = []\<rparr>"

definition two_listing :: "(path \<times> dir_item list) list" where
  "two_listing =
     [(''b/modules'', [sample_dir ''b/modules'' ''a'', sample_dir ''b/modules'' ''b'']),
      (''b/defaults'', [sample_dir ''b/defaults'' ''a'', sample_dir ''b/defaults'' ''b'']),
      (''b/docs'', [sample_dir ''b/docs'' ''a'', sample_dir ''b/docs'' ''b''])]"

definition two_world :: sample_world where
  "two_world =
     \<lparr>disk = [(''b/modules/a'', ''Ma''), (''b/modules/a/reducer.js'', ''Ra''),
              (''b/modules/b'', ''Mb''), (''b/modules/b/reducer.js'', ''Rb''),
              (''b/modules/b/sagas.js'', ''Sb''),
              (''b/defaults/a'', ''Da''), (''b/defaults/b'', ''Db''),
              (''b/docs/a'', ''Oa''), (''b/docs/b'', ''Ob'')],
      manifest_json = Some two_manifest\<rparr>"

abbreviation auth_env :: "(sample_world, unit) env" where
  "auth_env \<equiv> sample_env (sample_tree []) auth_listing True"

abbreviation auth_run :: "(error + unit) \<times> sample_world state" where
  "auth_run \<equiv> installFromLocalDir auth_env in_order from_b (init_state auth_world)"

abbreviation no_defaults_env :: "(sample_world, unit) env" where
  "no_defaults_env \<equiv> sample_env (sample_tree []) no_defaults_listing True"

abbreviation no_defaults_run :: "(error + unit) \<times> sample_world state" where
  "no_defaults_run \<equiv> installFromLocalDir no_defaults_env in_order from_b (init_state auth_world)"

abbreviation no_modules_env :: "(sample_world, unit) env" where
  "no_modules_env \<equiv> sample_env (sample_tree []) no_modules_listing True"

abbreviation no_modules_run :: "(error + unit) \<times> sample_world state" where
  "no_modules_run \<equiv> installFromLocalDir no_modules_env in_order from_b (init_state auth_world)"

abbreviation two_env :: "(sample_world, unit) env" where
  "two_env \<equiv> sample_env (sample_tree []) two_listing True"

abbreviation two_run :: "(error + unit) \<times> sample_world state" where
  "two_run \<equiv> installFromLocalDir two_env in_order from_b (init_state two_world)"

section \<open>Properties of \<^verbatim>\<open>preInstall\<close>\<close>





text \<open>
  Claim C5. \<^verbatim>\<open>preInstall\<close> leaves the outside world as it found it, every call it makes
  is a read (the manifest, the component tree, the listing of the modules directory) and
  none is a file mutation, and a second call right after the first returns the same
  result.
\<close>

theorem preInstall_dry_run:
  "world (snd (preInstall env opts st)) = world st \<and>
   (\<exists>evs. trace (snd (preInstall env opts st)) = trace st @ evs \<and>
          list_all is_read evs \<and> \<not> list_ex is_file_mutation evs) \<and>
   fst (preInstall env opts (snd (preInstall env opts st))) = fst (preInstall env opts st)"
  by (auto simp: preInstall_def thenP_def commons_readJson_def storage_getComponentTree_def
      list_dirs_def log_def split: if_splits option.splits sum.splits)

theorem preInstall_dry_run_witness:
  "world (snd (preInstall (sample_env (sample_tree [''auth'']) auth_listing True) from_b
                 (init_state auth_world))) = auth_world \<and>
   fst (preInstall (sample_env (sample_tree [''auth'']) auth_listing True) from_b
          (snd (preInstall (sample_env (sample_tree [''auth'']) auth_listing True) from_b
                  (init_state auth_world))))
     = Inr \<lparr>namespacesSrcDirPath = ''b'', existingNamespaceDirs = [''auth'']\<rparr>"
proof -
  have "fst (preInstall (sample_env (sample_tree [''auth'']) auth_listing True) from_b
                  (init_state auth_world))
     = Inr \<lparr>namespacesSrcDirPath = ''b'', existingNamespaceDirs = [''auth'']\<rparr>"
    by (simp add: preInstall_def thenP_def commons_readJson_def storage_getComponentTree_def
      list_dirs_def log_def collect_existing_def in_index_def sample_env_def sample_tree_def
      auth_listing_def auth_world_def from_b_def init_state_def truthy_def sample_dir_def)
  with preInstall_dry_run [of "sample_env (sample_tree [''auth'']) auth_listing True" from_b
      "init_state auth_world"]
  show ?thesis by (simp add: init_state_def)
qed

text \<open>
  Claim C8. Two bundles at the same path whose manifests both parse, with the same
  listing of the modules directory, checked against the same component tree, get the
  same result from \<^verbatim>\<open>preInstall\<close> (the same \<^verbatim>\<open>namespacesSrcDirPath\<close> and
  \<^verbatim>\<open>existingNamespaceDirs\<close>, or the same rejection), whatever the two manifests contain.
\<close>

theorem preInstall_ignores_manifest:
  assumes "dirPath opts = Some d"
      and "readJson env (path_join env [d, ''structor-namespaces.json'']) w1 = Inr m1"
      and "readJson env (path_join env [d, ''structor-namespaces.json'']) w2 = Inr m2"
      and "getComponentTree env w1 = getComponentTree env w2"
      and "readDirectoryFlat env (path_join env [d, ''modules'']) w1
         = readDirectoryFlat env (path_join env [d, ''modules'']) w2"
  shows "fst (preInstall env opts (init_state w1)) = fst (preInstall env opts (init_state w2))"
  using assms
  by (auto simp: preInstall_def thenP_def commons_readJson_def storage_getComponentTree_def
      list_dirs_def log_def init_state_def split: if_splits option.splits sum.splits)

theorem preInstall_ignores_manifest_witness:
  "readJson (sample_env (sample_tree [''auth'']) auth_listing True)
     (path_join (sample_env (sample_tree [''auth'']) auth_listing True)
        [''b'', ''structor-namespaces.json'']) auth_world = Inr auth_manifest \<and>
   readJson (sample_env (sample_tree [''auth'']) auth_listing True)
     (path_join (sample_env (sample_tree [''auth'']) auth_listing True)
        [''b'', ''structor-namespaces.json''])
     (auth_world\<lparr>manifest_json := Some \<lparr>namespaces = [], dependencies = [''react'']\<rparr>\<rparr>)
     = Inr \<lparr>namespaces = [], dependencies = [''react'']\<rparr> \<and>
   fst (preInstall (sample_env (sample_tree [''auth'']) auth_listing True) from_b
          (init_state auth_world))
   = fst (preInstall (sample_env (sample_tree [''auth'']) auth_listing True) from_b
          (init_state (auth_world\<lparr>manifest_json := Some \<lparr>namespaces = [], dependencies = [''react'']\<rparr>\<rparr>)))"
proof -
  have 1: "dirPath from_b = Some ''b''"
    by (simp add: from_b_def)
  have 2: "readJson (sample_env (sample_tree [''auth'']) auth_listing True)
     (path_join (sample_env (sample_tree [''auth'']) auth_listing True)
        [''b'', ''structor-namespaces.json'']) auth_world = Inr auth_manifest"
    by (simp add: sample_env_def auth_world_def)
  have 3: "readJson (sample_env (sample_tree [''auth'']) auth_listing True)
     (path_join (sample_env (sample_tree [''auth'']) auth_listing True)
        [''b'', ''structor-namespaces.json''])
     (auth_world\<lparr>manifest_json := Some \<lparr>namespaces = [], dependencies = [''react'']\<rparr>\<rparr>)
     = Inr \<lparr>namespaces = [], dependencies = [''react'']\<rparr>"
    by (simp add: sample_env_def)
  have 4: "getComponentTree (sample_env (sample_tree [''auth'']) auth_listing True) auth_world
     = getComponentTree (sample_env (sample_tree [''auth'']) auth_listing True)
         (auth_world\<lparr>manifest_json := Some \<lparr>namespaces = [], dependencies = [''react'']\<rparr>\<rparr>)"
    by (simp add: sample_env_def)
  have 5: "readDirectoryFlat (sample_env (sample_tree [''auth'']) auth_listing True)
       (path_join (sample_env (sample_tree [''auth'']) auth_listing True) [''b'', ''modules''])
       auth_world
     = readDirectoryFlat (sample_env (sample_tree [''auth'']) auth_listing True)
         (path_join (sample_env (sample_tree [''auth'']) auth_listing True) [''b'', ''modules''])
         (auth_world\<lparr>manifest_json := Some \<lparr>namespaces = [], dependencies = [''react'']\<rparr>\<rparr>)"
    by (simp add: sample_env_def)
  from preInstall_ignores_manifest [OF 1 2 3 4 5] 2 3 show ?thesis by simp
qed

section \<open>Properties of \<^verbatim>\<open>installFromLocalDir\<close>\<close>

text \<open>
  Claim C4. When the manifest has been read and \<^verbatim>\<open>storage.installDependencies\<close> rejects,
  \<^verbatim>\<open>installFromLocalDir\<close> rejects with that cause, and the two calls made so far (reading
  the manifest, installing the dependencies) are all the calls of the run: no file is
  written, copied or removed.
\<close>

theorem install_aborts_on_dependency_failure:
  assumes "dirPath opts = Some d"
      and "readJson env (path_join env [d, ''structor-namespaces.json'']) (world st) = Inr meta"
      and "installDependencies env (dependencies meta) (world st) = (Some e, w')"
  shows "installFromLocalDir env sch opts st =
           (Inl (External e),
            st\<lparr>world := w',
               trace := trace st @ [ReadJson (path_join env [d, ''structor-namespaces.json'']) True,
                                    InstallDependencies (dependencies meta) False]\<rparr>) \<and>
         \<not> list_ex is_file_mutation
             [ReadJson (path_join env [d, ''structor-namespaces.json'']) True,
              InstallDependencies (dependencies meta) False]"
  using assms
  by (simp add: installFromLocalDir_def thenP_def commons_readJson_def
      storage_installDependencies_def log_def)

theorem install_aborts_on_dependency_failure_witness:
  "installDependencies (sample_env (sample_tree []) auth_listing False)
     (dependencies auth_manifest) auth_world = (Some ''npm'', auth_world) \<and>
   fst (installFromLocalDir (sample_env (sample_tree []) auth_listing False) in_order from_b
          (init_state auth_world)) = Inl (External ''npm'') \<and>
   trace (snd (installFromLocalDir (sample_env (sample_tree []) auth_listing False) in_order
                 from_b (init_state auth_world)))
     = [ReadJson ''b/structor-namespaces.json'' True, InstallDependencies [] False] \<and>
   world (snd (installFromLocalDir (sample_env (sample_tree []) auth_listing False) in_order
                 from_b (init_state auth_world))) = auth_world"
proof -
  have 1: "dirPath from_b = Some ''b''"
    by (simp add: from_b_def)
  have 2: "readJson (sample_env (sample_tree []) auth_listing False)
     (path_join (sample_env (sample_tree []) auth_listing False)
        [''b'', ''structor-namespaces.json'']) (world (init_state auth_world)) = Inr auth_manifest"
    by (simp add: sample_env_def auth_world_def init_state_def)
  have 3: "installDependencies (sample_env (sample_tree []) auth_listing False)
     (dependencies auth_manifest) (world (init_state auth_world)) = (Some ''npm'', auth_world)"
    by (simp add: sample_env_def init_state_def)
  from install_aborts_on_dependency_failure [OF 1 2 3, of in_order] 3 show ?thesis
    by (simp add: init_state_def sample_env_def auth_manifest_def)
qed

section \<open>Runs of concurrent tasks\<close>

declare run_tasks.simps [simp del]

lemma unsettled_Nil: "unsettled ts = [] \<longleftrightarrow> (\<forall>t\<in>set ts. t = Settled)"
  by (auto simp: unsettled_def filter_empty_conv all_set_conv_all_nth)

lemma next_task_unsettled:
  assumes "unsettled ts \<noteq> []"
  shows "next_task sched (unsettled ts) < length ts"
    and "ts ! next_task sched (unsettled ts) \<noteq> Settled"
proof -
  have "next_task sched (unsettled ts) \<in> set (unsettled ts)"
    using assms by (simp add: next_task_def)
  then show "next_task sched (unsettled ts) < length ts"
    and "ts ! next_task sched (unsettled ts) \<noteq> Settled"
    by (simp_all add: unsettled_def)
qed

lemma run_tasks_invariant:
  assumes "\<And>ts st i. I ts st \<Longrightarrow> i < length ts \<Longrightarrow> ts ! i \<noteq> Settled \<Longrightarrow>
             I (ts[i := fst (step env cx (ts ! i) st)]) (snd (step env cx (ts ! i) st))"
      and "I ts st"
  shows "\<exists>ts'. length ts' = length ts \<and> (\<forall>t\<in>set ts'. t = Settled) \<and>
               I ts' (run_tasks env cx sched ts st)"
  using assms
proof (induction env cx sched ts st rule: run_tasks.induct)
  case (1 env cx sched ts st)
  show ?case
  proof (cases "unsettled ts = []")
    case True
    then have "run_tasks env cx sched ts st = st"
      by (simp add: run_tasks.simps)
    with True "1.prems"(2) show ?thesis
      by (auto simp: unsettled_Nil)
  next
    case False
    define i where "i = next_task sched (unsettled ts)"
    define r where "r = step env cx (ts ! i) st"
    have i: "i < length ts" "ts ! i \<noteq> Settled"
      using next_task_unsettled [OF False] by (simp_all add: i_def)
    have run: "run_tasks env cx sched ts st = run_tasks env cx (tl sched) (ts[i := fst r]) (snd r)"
      using False by (subst run_tasks.simps) (simp add: i_def r_def Let_def)
    have "I (ts[i := fst r]) (snd r)"
      unfolding r_def using "1.prems"(1) [OF "1.prems"(2) i] .
    from "1.IH" [OF False i_def r_def "1.prems"(1) this]
    show ?thesis
      using run by simp
  qed
qed

lemma step_CheckReducer:
  "step env cx (CheckReducer prop v) st =
     (case isExisting env (path_join env [modulesSrcDirPath cx, prop, ''reducer.js'']) (world st) of
        Some e \<Rightarrow> rejected e (log [Fs (IsExisting (path_join env [modulesSrcDirPath cx, prop, ''reducer.js''])) False] st)
      | None \<Rightarrow> (CheckSagas prop v, log [Fs (IsExisting (path_join env [modulesSrcDirPath cx, prop, ''reducer.js''])) True] st))"
  by (simp add: step_def split: option.splits)

lemma step_CheckSagas:
  "step env cx (CheckSagas prop v) st =
     (case isExisting env (moduleSagasFilePath cx) (world st) of
        Some e \<Rightarrow> rejected e (log [Fs (IsExisting (moduleSagasFilePath cx)) False] st)
      | None \<Rightarrow> resolved env cx (CheckSagas prop v) (log [Fs (IsExisting (moduleSagasFilePath cx)) True] st))"
  by (simp add: step_def split: option.splits)

lemma sum_list_map_update:
  fixes f :: "'a \<Rightarrow> 'b::comm_monoid_add"
  shows "i < length xs \<Longrightarrow>
    sum_list (map f (xs[i := y])) + f (xs ! i) = sum_list (map f xs) + f y"
proof (induction xs arbitrary: i)
  case Nil
  then show ?case by simp
next
  case (Cons x xs)
  show ?case
  proof (cases i)
    case 0
    then show ?thesis by (simp add: add.commute add.left_commute)
  next
    case (Suc j)
    with Cons.prems have "j < length xs" by simp
    from Cons.IH [OF this] Suc show ?thesis
      by (simp add: add.assoc)
  qed
qed

lemma reducer_injections_append:
  "reducer_injections (xs @ ys) = reducer_injections xs @ reducer_injections ys"
  by (induction xs rule: reducer_injections.induct) simp_all

lemma saga_injections_append:
  "saga_injections (xs @ ys) = saga_injections xs @ saga_injections ys"
  by (induction xs rule: saga_injections.induct) simp_all


lemma set_update_cases: "x \<in> set (xs[i := y]) \<Longrightarrow> x = y \<or> x \<in> set xs"
  using set_update_subset_insert [of xs i y] by auto

lemma rewrite_inv_step:
  assumes inv: "rewrite_inv env st0 allns ts st" and i: "i < length ts" "ts ! i \<noteq> Settled"
  shows "rewrite_inv env st0 allns (ts[i := fst (step env cx (ts ! i) st)]) (snd (step env cx (ts ! i) st))"
proof -
  from inv obtain evs where evs: "trace st = trace st0 @ evs" "\<forall>e\<in>set evs. rewrite_event e"
    "globalReducerSourceCode st
          = apply_reducer_injections env (globalReducerSourceCode st0) (reducer_injections evs)"
    "globalSagasSourceCode st
          = apply_saga_injections env (globalSagasSourceCode st0) (saga_injections evs)"
    "rejection st = None \<Longrightarrow>
           image_mset (reducer_injection_of env) (sum_list (map owed ts)) + mset (reducer_injections evs)
             = image_mset (reducer_injection_of env) allns"
    "rejection st = None \<Longrightarrow>
           image_mset (saga_injection_of env) (sum_list (map owed ts)) + mset (saga_injections evs)
             = image_mset (saga_injection_of env) allns"
    by (auto simp: rewrite_inv_def)
  from inv have rest: "world st = world st0"
    "componentsIndexSourceCode st = componentsIndexSourceCode st0"
    "rejection st = None \<or> (\<exists>e. rejection st = Some (External e))"
    "\<forall>t\<in>set ts. rewrite_task t"
    by (auto simp: rewrite_inv_def)
  have upd: "sum_list (map owed (ts[i := y])) + owed (ts ! i) = sum_list (map owed ts) + owed y" for y
    using i by (simp add: sum_list_map_update)
  from rest(4) i have "rewrite_task (ts ! i)" by simp
  with i(2) consider (reducer) nm v where "ts ! i = CheckReducer nm v"
    | (sagas) nm v where "ts ! i = CheckSagas nm v"
    by (cases "ts ! i") simp_all
  then show ?thesis
  proof cases
    case reducer
    let ?p = "path_join env [modulesSrcDirPath cx, nm, ''reducer.js'']"
    show ?thesis
    proof (cases "isExisting env ?p (world st)")
      case None
      have "sum_list (map owed (ts[i := CheckSagas nm v])) = sum_list (map owed ts)"
        using upd [of "CheckSagas nm v"] reducer by simp
      with None reducer evs rest show ?thesis
        by (auto simp: rewrite_inv_def step_CheckReducer log_def
            reducer_injections_append saga_injections_append dest!: set_update_cases)
    next
      case (Some e)
      with reducer evs rest show ?thesis
        by (auto simp: rewrite_inv_def step_CheckReducer log_def rejected_def
            reducer_injections_append saga_injections_append dest!: set_update_cases)
    qed
  next
    case sagas
    show ?thesis
    proof (cases "isExisting env (moduleSagasFilePath cx) (world st)")
      case None
      have "sum_list (map owed (ts[i := Settled])) + {#(nm, v)#} = sum_list (map owed ts)"
        using upd [of Settled] sagas by simp
      then have s: "sum_list (map owed ts) = sum_list (map owed (ts[i := Settled])) + {#(nm, v)#}"
        by simp
      from None sagas evs rest show ?thesis
        unfolding s
        by (auto simp: rewrite_inv_def step_CheckSagas log_def Let_def
            reducer_injections_append saga_injections_append
            apply_reducer_injections_def apply_saga_injections_def
            reducer_injection_of_def saga_injection_of_def dest!: set_update_cases)
    next
      case (Some e)
      with sagas evs rest show ?thesis
        by (auto simp: rewrite_inv_def step_CheckSagas log_def rejected_def
            reducer_injections_append saga_injections_append dest!: set_update_cases)
    qed
  qed
qed

lemma rewrite_group_run:
  assumes "rejection st = None"
  shows "rewrite_inv env st (mset (namespaces meta)) []
           (run_tasks env cx sched (rewrite_tasks meta) st)"
proof -
  have init: "rewrite_inv env st (mset (namespaces meta)) (rewrite_tasks meta) st"
  proof -
    have "sum_list (map owed (map (\<lambda>(nm, v). CheckReducer nm v) nss)) = mset nss" for nss
      by (induction nss) auto
    moreover have "\<forall>t\<in>set (map (\<lambda>(nm, v). CheckReducer nm v) nss). rewrite_task t" for nss
      by auto
    ultimately show ?thesis
      using assms
      by (simp add: rewrite_inv_def rewrite_tasks_def apply_reducer_injections_def
          apply_saga_injections_def)
  qed
  from run_tasks_invariant [where I = "rewrite_inv env st (mset (namespaces meta))"
      and env = env and cx = cx and sched = sched, OF rewrite_inv_step init]
  obtain ts' where ts': "\<forall>t\<in>set ts'. t = Settled"
    "rewrite_inv env st (mset (namespaces meta)) ts'
       (run_tasks env cx sched (rewrite_tasks meta) st)"
    by blast
  from ts'(1) have "sum_list (map owed ts') = {#}"
    by (induction ts') simp_all
  with ts'(2) show ?thesis
    by (simp add: rewrite_inv_def)
qed

lemma copies_append: "copies g (xs @ ys) = copies g xs @ copies g ys"
  by (induction g xs rule: copies.induct) simp_all

lemma pending_removals_append:
  "pending_removals (xs @ ys) = foldl note_removal (pending_removals xs) ys"
  by (simp add: pending_removals_def)

lemma mem_set_update: "x \<in> set xs \<Longrightarrow> x \<noteq> xs ! i \<Longrightarrow> x \<in> set (xs[i := y])"
  by (metis in_set_conv_nth length_list_update nth_list_update_neq)

lemma step_Removing:
  "step env cx (Removing g item) st =
     (case removeFile env (destDirPath env cx g item) (world st) of
        (Some e, w') \<Rightarrow> rejected e (log [Fs (RemoveFile g (destDirPath env cx g item)) False] (st\<lparr>world := w'\<rparr>))
      | (None, w') \<Rightarrow> (Copying g item, log [Fs (RemoveFile g (destDirPath env cx g item)) True] (st\<lparr>world := w'\<rparr>)))"
  by (simp add: step_def split: option.splits prod.splits)

lemma step_Copying:
  "step env cx (Copying g item) st =
     (case copyFile env (dir_path item) (destDirPath env cx g item) (world st) of
        (Some e, w') \<Rightarrow> rejected e (log [Fs (CopyFile g (dir_path item) (destDirPath env cx g item)) False] (st\<lparr>world := w'\<rparr>))
      | (None, w') \<Rightarrow> resolved env cx (Copying g item)
           (log [Fs (CopyFile g (dir_path item) (destDirPath env cx g item)) True] (st\<lparr>world := w'\<rparr>)))"
  by (simp add: step_def split: option.splits prod.splits)

lemma step_WritingIndex:
  "step env cx (WritingIndex t) st =
     (case writeFile env (treeIndexFilePath cx) t (world st) of
        (Some e, w') \<Rightarrow> rejected e (log [Fs (WriteFile (treeIndexFilePath cx) t) False] (st\<lparr>world := w'\<rparr>))
      | (None, w') \<Rightarrow> (Settled, log [Fs (WriteFile (treeIndexFilePath cx) t) True] (st\<lparr>world := w'\<rparr>)))"
  by (simp add: step_def split: option.splits prod.splits)

lemma resolved_Copying:
  "resolved env cx (Copying g item) st =
     (if g = Defaults then
        (WritingIndex (injectNamespaceComponent env (componentsIndexSourceCode st) (dir_name item)
                         (path_join env [''modules'', dir_name item])),
         log [InjectNamespaceComponent (componentsIndexSourceCode st) (dir_name item)
                (path_join env [''modules'', dir_name item])]
           (st\<lparr>componentsIndexSourceCode :=
                 injectNamespaceComponent env (componentsIndexSourceCode st) (dir_name item)
                   (path_join env [''modules'', dir_name item])\<rparr>))
      else (Settled, st))"
  by (cases g) (simp_all add: Let_def)

lemma copy_inv_step:
  assumes inv: "copy_inv env cx g st0 items ts st" and i: "i < length ts" "ts ! i \<noteq> Settled"
  shows "copy_inv env cx g st0 items (ts[i := fst (step env cx (ts ! i) st)]) (snd (step env cx (ts ! i) st))"
proof -
  from inv obtain evs where evs: "trace st = trace st0 @ evs"
    "\<forall>e\<in>set evs. copy_event (treeIndexFilePath cx) g e"
    "rejection st = None \<Longrightarrow> \<forall>e\<in>set evs. succeeded e"
    "rejection st = None \<Longrightarrow>
       image_mset (copy_of env cx g) (sum_list (map owed_item ts)) + mset (copies g evs)
             = image_mset (copy_of env cx g) items"
    by (auto simp: copy_inv_def)
  from inv have rest: "rejection st = None \<or> (\<exists>e. rejection st = Some (External e))"
    "\<forall>t\<in>set ts. copy_task g t"
    by (auto simp: copy_inv_def)
  have upd: "sum_list (map owed_item (ts[i := y])) + owed_item (ts ! i)
      = sum_list (map owed_item ts) + owed_item y" for y
    using i by (simp add: sum_list_map_update)
  from rest(2) i have "copy_task g (ts ! i)" by simp
  with i(2) consider (removing) item where "ts ! i = Removing g item"
    | (copying) item where "ts ! i = Copying g item"
    | (writing) t where "ts ! i = WritingIndex t" "g = Defaults"
    by (cases "ts ! i") simp_all
  then show ?thesis
  proof cases
    case removing
    let ?d = "destDirPath env cx g item"
    obtain r w' where r: "removeFile env ?d (world st) = (r, w')"
      by (cases "removeFile env ?d (world st)")
    show ?thesis
    proof (cases r)
      case None
      have "sum_list (map owed_item (ts[i := Copying g item])) = sum_list (map owed_item ts)"
        using upd [of "Copying g item"] removing by simp
      with None r removing evs rest show ?thesis
        by (auto simp: copy_inv_def step_Removing log_def copies_append
            dest!: set_update_cases)
    next
      case (Some e)
      with r removing evs rest show ?thesis
        by (auto simp: copy_inv_def step_Removing log_def rejected_def copies_append
            dest!: set_update_cases)
    qed
  next
    case copying
    let ?d = "destDirPath env cx g item"
    obtain r w' where r: "copyFile env (dir_path item) ?d (world st) = (r, w')"
      by (cases "copyFile env (dir_path item) ?d (world st)")
    show ?thesis
    proof (cases r)
      case None
      have "sum_list (map owed_item (ts[i := y])) + {#item#} = sum_list (map owed_item ts)"
        if "owed_item y = {#}" for y
        using upd [of y] copying that by simp
      with evs(4) have e4: "rejection st = None \<Longrightarrow>
          image_mset (copy_of env cx g) (sum_list (map owed_item (ts[i := y])))
            + {#copy_of env cx g item#} + mset (copies g evs)
          = image_mset (copy_of env cx g) items"
        if "owed_item y = {#}" for y
        using that by (metis image_mset_single image_mset_union)
      from None r copying evs(1-3) rest e4 [of Settled]
        e4 [of "WritingIndex (injectNamespaceComponent env (componentsIndexSourceCode st)
                  (dir_name item) (path_join env [''modules'', dir_name item]))"]
      show ?thesis
        unfolding copy_inv_def
        by (auto simp: step_Copying resolved_Copying log_def copies_append copy_of_def
            dest!: set_update_cases)
    next
      case (Some e)
      with r copying evs rest show ?thesis
        by (auto simp: copy_inv_def step_Copying log_def rejected_def copies_append
            dest!: set_update_cases)
    qed
  next
    case writing
    obtain r w' where r: "writeFile env (treeIndexFilePath cx) t (world st) = (r, w')"
      by (cases "writeFile env (treeIndexFilePath cx) t (world st)")
    show ?thesis
    proof (cases r)
      case None
      have "sum_list (map owed_item (ts[i := Settled])) = sum_list (map owed_item ts)"
        using upd [of Settled] writing by simp
      then show ?thesis
        using None r writing evs rest
        by (auto simp: copy_inv_def step_WritingIndex log_def copies_append
            dest!: set_update_cases)
    next
      case (Some e)
      with r writing evs rest show ?thesis
        by (auto simp: copy_inv_def step_WritingIndex log_def rejected_def copies_append
            dest!: set_update_cases)
    qed
  qed
qed

lemma copying_dests_other:
  assumes "\<And>h item. ts ! i \<noteq> Copying h item"
  shows "copying_dests env cx ts \<subseteq> copying_dests env cx (ts[i := y])"
proof
  fix x assume "x \<in> copying_dests env cx ts"
  then obtain h item where x: "x = (h, destDirPath env cx h item)" "Copying h item \<in> set ts"
    by (auto simp: copying_dests_def)
  have "Copying h item \<noteq> ts ! i"
    using assms [of h item] by (rule not_sym)
  with x(2) have "Copying h item \<in> set (ts[i := y])"
    by (rule mem_set_update)
  with x(1) show "x \<in> copying_dests env cx (ts[i := y])"
    by (auto simp: copying_dests_def)
qed

lemma copying_dests_keep:
  assumes "ts ! i = Copying g item"
  shows "copying_dests env cx ts - {(g, destDirPath env cx g item)} \<subseteq> copying_dests env cx (ts[i := y])"
proof
  fix x assume "x \<in> copying_dests env cx ts - {(g, destDirPath env cx g item)}"
  then obtain h it where x: "x = (h, destDirPath env cx h it)" "Copying h it \<in> set ts"
    "x \<noteq> (g, destDirPath env cx g item)"
    by (auto simp: copying_dests_def)
  then have "Copying h it \<noteq> ts ! i"
    using assms by auto
  with x(2) have "Copying h it \<in> set (ts[i := y])"
    by (rule mem_set_update)
  with x(1) show "x \<in> copying_dests env cx (ts[i := y])"
    by (auto simp: copying_dests_def)
qed

lemma copying_dests_grow:
  assumes "ts ! i = Removing g item" "i < length ts"
  shows "insert (g, destDirPath env cx g item) (copying_dests env cx ts)
      \<subseteq> copying_dests env cx (ts[i := Copying g item])"
proof -
  have "Copying g item \<in> set (ts[i := Copying g item])"
    using assms(2) by (simp add: set_update_memI)
  then have "(g, destDirPath env cx g item) \<in> copying_dests env cx (ts[i := Copying g item])"
    by (auto simp: copying_dests_def)
  moreover have "copying_dests env cx ts \<subseteq> copying_dests env cx (ts[i := Copying g item])"
    using assms(1) by (intro copying_dests_other) simp
  ultimately show ?thesis by simp
qed

lemma pending_removals_snoc:
  "pending_removals (tr @ [e]) = note_removal (pending_removals tr) e"
  by (simp add: pending_removals_def)

lemma pending_inv_step:
  assumes inv: "pending_inv env cx S ts st" and i: "i < length ts" "ts ! i \<noteq> Settled"
  shows "pending_inv env cx S (ts[i := fst (step env cx (ts ! i) st)]) (snd (step env cx (ts ! i) st))"
proof (cases "ts ! i")
  case (CheckReducer nm v)
  have "copying_dests env cx ts \<subseteq> copying_dests env cx (ts[i := y])" for y
    using CheckReducer by (intro copying_dests_other) simp
  with inv CheckReducer show ?thesis
    unfolding pending_inv_def
    by (auto simp: step_CheckReducer log_def rejected_def pending_removals_snoc
        split: option.splits;
        blast)
next
  case (CheckSagas nm v)
  have "copying_dests env cx ts \<subseteq> copying_dests env cx (ts[i := y])" for y
    using CheckSagas by (intro copying_dests_other) simp
  with inv CheckSagas show ?thesis
    unfolding pending_inv_def
    by (auto simp: step_CheckSagas log_def rejected_def pending_removals_snoc Let_def
        pending_removals_append split: option.splits;
        blast)
next
  case (Removing g item)
  from copying_dests_grow [OF Removing i(1)] inv Removing show ?thesis
    unfolding pending_inv_def
    by (auto simp: step_Removing log_def rejected_def pending_removals_snoc
        split: option.splits prod.splits;
        blast)
next
  case (Copying g item)
  from copying_dests_keep [OF Copying] inv Copying show ?thesis
    unfolding pending_inv_def
    by (auto simp: step_Copying resolved_Copying log_def rejected_def pending_removals_snoc
        pending_removals_append split: option.splits prod.splits;
        blast)
next
  case (WritingIndex t)
  have "copying_dests env cx ts \<subseteq> copying_dests env cx (ts[i := y])" for y
    using WritingIndex by (intro copying_dests_other) simp
  with inv WritingIndex show ?thesis
    unfolding pending_inv_def
    by (auto simp: step_WritingIndex log_def rejected_def pending_removals_snoc
        split: option.splits prod.splits;
        blast)
next
  case Settled
  with i show ?thesis by simp
qed

lemma sum_list_owed_settled: "\<forall>t\<in>set ts. t = Settled \<Longrightarrow> sum_list (map owed_item ts) = {#}"
  by (induction ts) simp_all

lemma copying_dests_settled: "\<forall>t\<in>set ts. t = Settled \<Longrightarrow> copying_dests env cx ts = {}"
  by (auto simp: copying_dests_def)

lemma copy_group_run:
  assumes "rejection st = None"
  shows "copy_inv env cx g st (mset ds) [] (run_tasks env cx sched (map (Removing g) ds) st) \<and>
         pending_inv env cx (pending_removals (trace st)) []
           (run_tasks env cx sched (map (Removing g) ds) st)"
proof -
  let ?I = "\<lambda>ts s. copy_inv env cx g st (mset ds) ts s \<and>
                    pending_inv env cx (pending_removals (trace st)) ts s"
  have "sum_list (map owed_item (map (Removing g) xs)) = mset xs" for xs
    by (induction xs) auto
  then have init: "?I (map (Removing g) ds) st"
    using assms by (auto simp: copy_inv_def pending_inv_def)
  have stp: "?I (ts[i := fst (step env cx (ts ! i) s)]) (snd (step env cx (ts ! i) s))"
    if "?I ts s" "i < length ts" "ts ! i \<noteq> Settled" for ts s i
    using that copy_inv_step pending_inv_step by blast
  from run_tasks_invariant [where I = ?I and env = env and cx = cx and sched = sched, OF stp init]
  obtain ts' where ts': "\<forall>t\<in>set ts'. t = Settled"
    "?I ts' (run_tasks env cx sched (map (Removing g) ds) st)"
    by blast
  with sum_list_owed_settled [OF ts'(1)] copying_dests_settled [OF ts'(1), of env cx]
  show ?thesis
    by (simp add: copy_inv_def pending_inv_def copying_dests_def)
qed

lemma thenP_E:
  assumes "thenP m f st = (r, st'')"
  obtains (rejects) e where "m st = (Inl e, st'')" "r = Inl e"
    | (resolves) x st' where "m st = (Inr x, st')" "f x st' = (r, st'')"
  using assms by (auto simp: thenP_def split: prod.splits sum.splits)

lemma list_dirs_E:
  assumes "list_dirs env g p st = (r, st')"
  obtains lst where "st' = log [ReadDirectoryFlat g p lst] st"
    "(\<exists>ds. r = Inr ds \<and> ds \<noteq> [] \<and> lst = Some (Some ds)) \<or>
     (r = Inl (empty_error g) \<and> (lst = Some None \<or> lst = Some (Some []))) \<or>
     (\<exists>e. r = Inl (External e) \<and> lst = None)"
  using assms by (auto simp: list_dirs_def split: sum.splits option.splits if_splits)

lemma copy_stage_result:
  assumes "copy_stage env cx sched g tree ds st = (r, st')"
  shows "\<exists>evs. trace st' = trace st @ evs \<and>
           (\<forall>e\<in>set evs. copy_event (treeIndexFilePath cx) g e) \<and>
           ((\<exists>e. r = Inl (External e)) \<or>
            (r = Inr () \<and> (\<forall>e\<in>set evs. succeeded e) \<and>
             mset (copies g evs) = image_mset (copy_of env cx g) (mset ds) \<and>
             pending_removals (trace st') \<subseteq> pending_removals (trace st)))"
proof -
  define st0 where "st0 = (case g of Defaults \<Rightarrow> st\<lparr>componentsIndexSourceCode := indexSourceCode tree\<rparr>
        | _ \<Rightarrow> st)\<lparr>rejection := None\<rparr>"
  have tr0: "trace st0 = trace st" and rej0: "rejection st0 = None"
    by (simp_all add: st0_def split: group.splits)
  define fin where "fin = run_tasks env cx sched (map (Removing g) ds) st0"
  from copy_group_run [OF rej0, of env cx g ds sched]
  have inv: "copy_inv env cx g st0 (mset ds) [] fin"
    "pending_inv env cx (pending_removals (trace st0)) [] fin"
    by (simp_all add: fin_def)
  from assms have res: "(case rejection fin of None \<Rightarrow> (Inr (), fin) | Some e \<Rightarrow> (Inl e, fin)) = (r, st')"
    unfolding copy_stage_def promise_all_def fin_def st0_def Let_def by simp
  then have st': "st' = fin"
    by (simp split: option.splits)
  from inv(1) obtain evs where evs: "trace fin = trace st0 @ evs"
    "\<forall>e\<in>set evs. copy_event (treeIndexFilePath cx) g e"
    "rejection fin = None \<Longrightarrow> (\<forall>e\<in>set evs. succeeded e) \<and>
        mset (copies g evs) = image_mset (copy_of env cx g) (mset ds)"
    "rejection fin = None \<or> (\<exists>e. rejection fin = Some (External e))"
    by (auto simp: copy_inv_def)
  from inv(2) have pend: "rejection fin = None \<Longrightarrow>
      pending_removals (trace fin) \<subseteq> pending_removals (trace st0)"
    by (simp add: pending_inv_def copying_dests_def)
  show ?thesis
  proof (cases "rejection fin")
    case None
    with res evs pend st' tr0 show ?thesis by auto
  next
    case (Some x)
    with res evs st' tr0 show ?thesis by auto
  qed
qed

lemma commons_writeFile_result:
  assumes "commons_writeFile env p t st = (r, st')"
  shows "\<exists>ok. trace st' = trace st @ [Fs (WriteFile p t) ok] \<and>
          globalSagasSourceCode st' = globalSagasSourceCode st \<and>
          ((ok \<and> r = Inr ()) \<or> (\<not> ok \<and> (\<exists>e. r = Inl (External e))))"
  using assms by (auto simp: commons_writeFile_def log_def split: prod.splits option.splits)

lemma rewrite_stage_result:
  assumes "rewrite_stage env cx sched meta tree st = (r, st')"
  shows "\<exists>evs. (\<forall>e\<in>set evs. rewrite_event e) \<and>
           ((\<exists>e. r = Inl (External e) \<and> trace st' = trace st @ evs \<and>
               rejection (run_tasks env cx sched (rewrite_tasks meta)
                 (st\<lparr>globalReducerSourceCode := reducersSourceCode tree,
                     globalSagasSourceCode := sagasSourceCode tree, rejection := None\<rparr>)) \<noteq> None) \<or>
            (mset (reducer_injections evs)
               = image_mset (reducer_injection_of env) (mset (namespaces meta)) \<and>
             mset (saga_injections evs)
               = image_mset (saga_injection_of env) (mset (namespaces meta)) \<and>
             (\<exists>ok1 rest.
                trace st' = trace st @ evs @
                  Fs (WriteFile (reducersFilePath tree)
                        (apply_reducer_injections env (reducersSourceCode tree)
                           (reducer_injections evs))) ok1 # rest \<and>
                ((\<not> ok1 \<and> rest = [] \<and> (\<exists>e. r = Inl (External e))) \<or>
                 (ok1 \<and> (\<exists>ok2. rest =
                    [Fs (WriteFile (sagasFilePath tree)
                          (apply_saga_injections env (sagasSourceCode tree)
                             (saga_injections evs))) ok2] \<and>
                    ((ok2 \<and> r = Inr ()) \<or> (\<not> ok2 \<and> (\<exists>e. r = Inl (External e))))))))))"
proof -
  define st0 where "st0 = st\<lparr>globalReducerSourceCode := reducersSourceCode tree,
           globalSagasSourceCode := sagasSourceCode tree, rejection := None\<rparr>"
  define fin where "fin = run_tasks env cx sched (rewrite_tasks meta) st0"
  have "rejection st0 = None" by (simp add: st0_def)
  from rewrite_group_run [OF this, of env meta cx sched]
  have "rewrite_inv env st0 (mset (namespaces meta)) [] fin"
    by (simp add: fin_def)
  then obtain evs where evs: "trace fin = trace st @ evs" "\<forall>e\<in>set evs. rewrite_event e"
    "globalReducerSourceCode fin
       = apply_reducer_injections env (reducersSourceCode tree) (reducer_injections evs)"
    "globalSagasSourceCode fin
       = apply_saga_injections env (sagasSourceCode tree) (saga_injections evs)"
    "rejection fin = None \<Longrightarrow>
       mset (reducer_injections evs) = image_mset (reducer_injection_of env) (mset (namespaces meta)) \<and>
       mset (saga_injections evs) = image_mset (saga_injection_of env) (mset (namespaces meta))"
    "rejection fin = None \<or> (\<exists>e. rejection fin = Some (External e))"
    by (auto simp: rewrite_inv_def st0_def)
  have pa: "promise_all env cx sched (rewrite_tasks meta)
       (st\<lparr>globalReducerSourceCode := reducersSourceCode tree,
           globalSagasSourceCode := sagasSourceCode tree\<rparr>)
     = (case rejection fin of None \<Rightarrow> (Inr (), fin) | Some e \<Rightarrow> (Inl e, fin))"
    unfolding promise_all_def fin_def st0_def Let_def by simp
  show ?thesis
  proof (cases "rejection fin")
    case (Some x)
    with assms pa evs show ?thesis
      unfolding fin_def st0_def by (auto simp: rewrite_stage_def thenP_def)
  next
    case None
    with assms pa have w1: "thenP (\<lambda>s. commons_writeFile env (reducersFilePath tree) (globalReducerSourceCode s) s)
       (\<lambda>_ s. commons_writeFile env (sagasFilePath tree) (globalSagasSourceCode s) s) fin = (r, st')"
      by (simp add: rewrite_stage_def thenP_def)
    from w1 show ?thesis
    proof (cases rule: thenP_E)
      case (rejects e)
      from commons_writeFile_result [OF rejects(1)] rejects(2) evs None show ?thesis
        by (intro exI [of _ evs]) auto
    next
      case (resolves x s1)
      from commons_writeFile_result [OF resolves(1)] obtain ok1 where
        a: "trace s1 = trace fin @ [Fs (WriteFile (reducersFilePath tree) (globalReducerSourceCode fin)) ok1]"
        "globalSagasSourceCode s1 = globalSagasSourceCode fin" "ok1"
        by auto
      from commons_writeFile_result [OF resolves(2)] obtain ok2 where
        b: "trace st' = trace s1 @ [Fs (WriteFile (sagasFilePath tree) (globalSagasSourceCode s1)) ok2]"
        "(ok2 \<and> r = Inr ()) \<or> (\<not> ok2 \<and> (\<exists>e. r = Inl (External e)))"
        by auto
      from a b evs None show ?thesis
        by (intro exI [of _ evs]) auto
    qed
  qed
qed















lemma sagas_path_after_loop_last:
  "nss \<noteq> [] \<Longrightarrow>
   sagas_path_after_loop env d nss = path_join env [d, fst (last nss), ''sagas.js'']"
  by (cases nss rule: rev_cases) (auto simp: sagas_path_after_loop_def)

lemma rewrite_group_resolves:
  assumes "rejection st = None"
    and "\<forall>ns\<in>set nss. isExisting env (path_join env [modulesSrcDirPath cx, fst ns, ''reducer.js'']) (world st) = None"
    and "nss \<noteq> [] \<longrightarrow> isExisting env (moduleSagasFilePath cx) (world st) = None"
  shows "rejection (run_tasks env cx sched (map (\<lambda>(nm, v). CheckReducer nm v) nss) st) = None"
proof -
  let ?I = "\<lambda>ts s. world s = world st \<and> rejection s = None \<and>
     (\<forall>t\<in>set ts. t = Settled \<or> (\<exists>ns\<in>set nss. t = CheckReducer (fst ns) (snd ns) \<or> t = CheckSagas (fst ns) (snd ns)))"
  have init: "?I (map (\<lambda>(nm, v). CheckReducer nm v) nss) st"
    using assms(1) by force
  have stp: "?I (ts[i := fst (step env cx (ts ! i) s)]) (snd (step env cx (ts ! i) s))"
    if inv: "?I ts s" and i: "i < length ts" "ts ! i \<noteq> Settled" for ts s i
  proof -
    from inv i obtain ns where ns: "ns \<in> set nss"
      "ts ! i = CheckReducer (fst ns) (snd ns) \<or> ts ! i = CheckSagas (fst ns) (snd ns)"
      by (metis nth_mem)
    then have "nss \<noteq> []" by auto
    with assms(3) have sg: "isExisting env (moduleSagasFilePath cx) (world st) = None"
      by simp
    from ns(2) show ?thesis
    proof
      assume "ts ! i = CheckReducer (fst ns) (snd ns)"
      with inv ns(1) assms(2) show ?thesis
        by (auto simp: step_CheckReducer log_def dest!: set_update_cases)
    next
      assume "ts ! i = CheckSagas (fst ns) (snd ns)"
      with inv sg show ?thesis
        by (auto simp: step_CheckSagas log_def Let_def dest!: set_update_cases)
    qed
  qed
  from run_tasks_invariant [where I = ?I and env = env and cx = cx and sched = sched, OF stp init]
  show ?thesis by blast
qed

lemma copy_event_staging: "copy_event idx g e \<Longrightarrow> staging_event idx e"
  by (induction idx g e rule: copy_event.induct) simp_all

lemma emits_thenP:
  assumes "emits K m" "\<And>x. emits K (f x)"
  shows "emits K (thenP m f)"
  unfolding emits_def
proof (intro allI impI)
  fix st r st' assume "thenP m f st = (r, st')"
  then show "\<exists>evs. trace st' = trace st @ evs \<and> (\<forall>e\<in>set evs. K e)"
  proof (cases rule: thenP_E)
    case (rejects e)
    with assms(1) show ?thesis by (simp add: emits_def)
  next
    case (resolves y s1)
    from assms(1) resolves(1) obtain e1 where "trace s1 = trace st @ e1" "\<forall>e\<in>set e1. K e"
      unfolding emits_def by blast
    moreover from assms(2) resolves(2) obtain e2 where "trace st' = trace s1 @ e2" "\<forall>e\<in>set e2. K e"
      unfolding emits_def by blast
    ultimately have "trace st' = trace st @ (e1 @ e2) \<and> (\<forall>e\<in>set (e1 @ e2). K e)"
      by auto
    then show ?thesis by blast
  qed
qed

lemma emits_list_dirs: "(\<And>r. K (ReadDirectoryFlat g p r)) \<Longrightarrow> emits K (list_dirs env g p)"
  unfolding emits_def by (auto elim!: list_dirs_E simp: log_def)

lemma emits_copy_stage:
  "(\<And>e. copy_event (treeIndexFilePath cx) g e \<Longrightarrow> K e) \<Longrightarrow> emits K (copy_stage env cx sched g tree ds)"
  unfolding emits_def
proof (intro allI impI)
  fix st r st'
  assume K: "\<And>e. copy_event (treeIndexFilePath cx) g e \<Longrightarrow> K e"
    and "copy_stage env cx sched g tree ds st = (r, st')"
  from copy_stage_result [OF this(2)] obtain evs where
    "trace st' = trace st @ evs" "\<forall>e\<in>set evs. copy_event (treeIndexFilePath cx) g e"
    by blast
  with K have "trace st' = trace st @ evs \<and> (\<forall>e\<in>set evs. K e)" by blast
  then show "\<exists>evs. trace st' = trace st @ evs \<and> (\<forall>e\<in>set evs. K e)" ..
qed


lemma stage_directories_events:
  "emits (staging_event (treeIndexFilePath cx)) (stage_directories env cx sch tree d)"
  unfolding stage_directories_def stage_group_def
  by (intro emits_thenP emits_list_dirs emits_copy_stage) (simp_all add: copy_event_staging)

section \<open>Runs of the sample bundles\<close>
lemma run_tasks_eval:
  "run_tasks env cx sched ts st =
     (case unsettled ts of
        [] \<Rightarrow> st
      | u # us \<Rightarrow>
          (case step env cx (ts ! next_task sched (u # us)) st of
             (t', st') \<Rightarrow> run_tasks env cx (tl sched) (ts[next_task sched (u # us) := t']) st'))"
  by (subst run_tasks.simps) (simp add: Let_def split: list.split prod.split)

lemma sample_env_sel:
  "path_join (sample_env tree listing depsOk) = slash_join"
  "appDirPath (sample_env tree listing depsOk) = ''app''"
  "componentDefaultsDirPath (sample_env tree listing depsOk) = ''app/defaults''"
  "docsComponentsDirPath (sample_env tree listing depsOk) = ''app/docs''"
  "readJson (sample_env tree listing depsOk) p w =
     (case manifest_json w of None \<Rightarrow> Inl ''ENOENT'' | Some meta \<Rightarrow> Inr meta)"
  "getComponentTree (sample_env tree listing depsOk) w = Inr tree"
  "readDirectoryFlat (sample_env tree listing depsOk) p w = Inr (map_of listing p)"
  "isExisting (sample_env tree listing depsOk) p w =
     (case map_of (disk w) p of None \<Rightarrow> Some ''ENOENT'' | Some content \<Rightarrow> None)"
  "installDependencies (sample_env tree listing depsOk) deps w =
     (if depsOk then None else Some ''npm'', w)"
  "writeFile (sample_env tree listing depsOk) p t w =
     (None, w\<lparr>disk := (p, t) # disk_remove p (disk w)\<rparr>)"
  "removeFile (sample_env tree listing depsOk) p w = (None, w\<lparr>disk := disk_remove p (disk w)\<rparr>)"
  "copyFile (sample_env tree listing depsOk) s d w =
     (case disk_copy s d (disk w) of (r, files) \<Rightarrow> (r, w\<lparr>disk := files\<rparr>))"
  "injectReducer (sample_env tree listing depsOk) = spec_injectReducer"
  "injectSaga (sample_env tree listing depsOk) = spec_injectSaga"
  "injectNamespaceComponent (sample_env tree listing depsOk) = spec_injectNamespaceComponent"
  by (simp_all add: sample_env_def)

lemma closure_of_sel:
  "modulesSrcDirPath (closure_of env d meta tree) = path_join env [d, ''modules'']"
  "moduleSagasFilePath (closure_of env d meta tree) =
     sagas_path_after_loop env (path_join env [d, ''modules'']) (namespaces meta)"
  "modulesDestDirPath (closure_of env d meta tree) = path_join env [appDirPath env, ''modules'']"
  "defaultsDestDirPath (closure_of env d meta tree) = componentDefaultsDirPath env"
  "docsDestDirPath (closure_of env d meta tree) = docsComponentsDirPath env"
  "treeIndexFilePath (closure_of env d meta tree) = indexFilePath tree"
  by (simp_all add: closure_of_def)

lemmas sample_defs = sample_env_sel sample_tree_def auth_listing_def auth_world_def from_b_def
  init_state_def sample_dir_def auth_manifest_def in_order_def disk_copy_def disk_remove_def
  spec_injectReducer_def spec_injectSaga_def spec_injectNamespaceComponent_def import_line_def
  no_defaults_listing_def no_modules_listing_def two_manifest_def two_listing_def two_world_def

lemmas model_defs = installFromLocalDir_def thenP_def commons_readJson_def
  storage_installDependencies_def storage_getComponentTree_def list_dirs_def log_def
  rewrite_stage_def rewrite_tasks_def copy_stage_def promise_all_def closure_of_sel
  sagas_path_after_loop_def commons_writeFile_def step_def rejected_def destDirPath_def
  unsettled_def next_task_def Let_def stage_directories_def stage_group_def run_tasks_eval

lemma install_auth:
  "auth_run =
     (Inr (),
      \<lparr>world =
         \<lparr>disk =
            [(''app/docs/auth'', ''O''),
             (''app/index.js'',
              ''import auth from modules/auth; auth, ''),
             (''app/defaults/auth'', ''D''),
             (''app/modules/auth'', ''M''),
             (''app/sagas.js'',
              ''import authSagas from modules/auth/sagas.js; authSagas, ''),
             (''app/reducers.js'',
              ''import authReducer from modules/auth/reducer.js; auth: authReducer, ''),
             (''b/modules/auth'', ''M''),
             (''b/modules/auth/reducer.js'', ''R''),
             (''b/modules/auth/sagas.js'', ''S''),
             (''b/defaults/auth'', ''D''), (''b/docs/auth'', ''O'')],
            manifest_json =
              Some
               \<lparr>namespaces = [(''auth'', \<lparr>reducerPropName = ''auth''\<rparr>)],
                  dependencies = []\<rparr>\<rparr>,
         trace =
           [ReadJson ''b/structor-namespaces.json'' True,
            InstallDependencies [] True, GetComponentTree True,
            Fs (IsExisting ''b/modules/auth/reducer.js'') True,
            Fs (IsExisting ''b/modules/auth/sagas.js'') True,
            InjectReducer [] ''auth'' ''authReducer''
             ''modules/auth/reducer.js'',
            InjectSaga [] ''authSagas'' ''modules/auth/sagas.js'',
            Fs (WriteFile ''app/reducers.js''
                 ''import authReducer from modules/auth/reducer.js; auth: authReducer, '')
             True,
            Fs (WriteFile ''app/sagas.js''
                 ''import authSagas from modules/auth/sagas.js; authSagas, '')
             True,
            ReadDirectoryFlat Modules ''b/modules''
             (Some
               (Some
                 [\<lparr>dir_name = ''auth'', dir_path = ''b/modules/auth''\<rparr>])),
            Fs (RemoveFile Modules ''app/modules/auth'') True,
            Fs (CopyFile Modules ''b/modules/auth'' ''app/modules/auth'')
             True,
            ReadDirectoryFlat Defaults ''b/defaults''
             (Some
               (Some
                 [\<lparr>dir_name = ''auth'',
                     dir_path = ''b/defaults/auth''\<rparr>])),
            Fs (RemoveFile Defaults ''app/defaults/auth'') True,
            Fs (CopyFile Defaults ''b/defaults/auth''
                 ''app/defaults/auth'')
             True,
            InjectNamespaceComponent [] ''auth'' ''modules/auth'',
            Fs (WriteFile ''app/index.js''
                 ''import auth from modules/auth; auth, '')
             True,
            ReadDirectoryFlat Docs ''b/docs''
             (Some
               (Some
                 [\<lparr>dir_name = ''auth'', dir_path = ''b/docs/auth''\<rparr>])),
            Fs (RemoveFile Docs ''app/docs/auth'') True,
            Fs (CopyFile Docs ''b/docs/auth'' ''app/docs/auth'') True],
         globalReducerSourceCode =
           ''import authReducer from modules/auth/reducer.js; auth: authReducer, '',
         globalSagasSourceCode =
           ''import authSagas from modules/auth/sagas.js; authSagas, '',
         componentsIndexSourceCode =
           ''import auth from modules/auth; auth, '',
         rejection = None\<rparr>)"
  by (simp add: model_defs sample_defs)

lemma install_no_defaults:
  "no_defaults_run =
     (Inl EmptyDefaultsDirectory,
       \<lparr>world =
          \<lparr>disk =
             [(''app/modules/auth'', ''M''),
              (''app/sagas.js'',
               ''import authSagas from modules/auth/sagas.js; authSagas, ''),
              (''app/reducers.js'',
               ''import authReducer from modules/auth/reducer.js; auth: authReducer, ''),
              (''b/modules/auth'', ''M''),
              (''b/modules/auth/reducer.js'', ''R''),
              (''b/modules/auth/sagas.js'', ''S''), (''b/defaults/auth'', ''D''),
              (''b/docs/auth'', ''O'')],
             manifest_json =
               Some
                \<lparr>namespaces = [(''auth'', \<lparr>reducerPropName = ''auth''\<rparr>)],
                   dependencies = []\<rparr>\<rparr>,
          trace =
            [ReadJson ''b/structor-namespaces.json'' True,
             InstallDependencies [] True, GetComponentTree True,
             Fs (IsExisting ''b/modules/auth/reducer.js'') True,
             Fs (IsExisting ''b/modules/auth/sagas.js'') True,
             InjectReducer [] ''auth'' ''authReducer''
              ''modules/auth/reducer.js'',
             InjectSaga [] ''authSagas'' ''modules/auth/sagas.js'',
             Fs (WriteFile ''app/reducers.js''
                  ''import authReducer from modules/auth/reducer.js; auth: authReducer, '')
              True,
             Fs (WriteFile ''app/sagas.js''
                  ''import authSagas from modules/auth/sagas.js; authSagas, '')
              True,
             ReadDirectoryFlat Modules ''b/modules''
              (Some
                (Some [\<lparr>dir_name = ''auth'', dir_path = ''b/modules/auth''\<rparr>])),
             Fs (RemoveFile Modules ''app/modules/auth'') True,
             Fs (CopyFile Modules ''b/modules/auth'' ''app/modules/auth'') True,
             ReadDirectoryFlat Defaults ''b/defaults'' (Some (Some []))],
          globalReducerSourceCode =
            ''import authReducer from modules/auth/reducer.js; auth: authReducer, '',
          globalSagasSourceCode =
            ''import authSagas from modules/auth/sagas.js; authSagas, '',
          componentsIndexSourceCode = [], rejection = None\<rparr>)"
  by (simp add: model_defs sample_defs)

lemma install_no_modules:
  "no_modules_run =
     (Inl EmptyModulesDirectory,
       \<lparr>world =
          \<lparr>disk =
             [(''app/sagas.js'',
               ''import authSagas from modules/auth/sagas.js; authSagas, ''),
              (''app/reducers.js'',
               ''import authReducer from modules/auth/reducer.js; auth: authReducer, ''),
              (''b/modules/auth'', ''M''),
              (''b/modules/auth/reducer.js'', ''R''),
              (''b/modules/auth/sagas.js'', ''S''), (''b/defaults/auth'', ''D''),
              (''b/docs/auth'', ''O'')],
             manifest_json =
               Some
                \<lparr>namespaces = [(''auth'', \<lparr>reducerPropName = ''auth''\<rparr>)],
                   dependencies = []\<rparr>\<rparr>,
          trace =
            [ReadJson ''b/structor-namespaces.json'' True,
             InstallDependencies [] True, GetComponentTree True,
             Fs (IsExisting ''b/modules/auth/reducer.js'') True,
             Fs (IsExisting ''b/modules/auth/sagas.js'') True,
             InjectReducer [] ''auth'' ''authReducer''
              ''modules/auth/reducer.js'',
             InjectSaga [] ''authSagas'' ''modules/auth/sagas.js'',
             Fs (WriteFile ''app/reducers.js''
                  ''import authReducer from modules/auth/reducer.js; auth: authReducer, '')
              True,
             Fs (WriteFile ''app/sagas.js''
                  ''import authSagas from modules/auth/sagas.js; authSagas, '')
              True,
             ReadDirectoryFlat Modules ''b/modules'' (Some (Some []))],
          globalReducerSourceCode =
            ''import authReducer from modules/auth/reducer.js; auth: authReducer, '',
          globalSagasSourceCode =
            ''import authSagas from modules/auth/sagas.js; authSagas, '',
          componentsIndexSourceCode = [], rejection = None\<rparr>)"
  by (simp add: model_defs sample_defs)

lemma install_two:
  "two_run =
     (Inr (),
       \<lparr>world =
          \<lparr>disk =
             [(''app/docs/b'', ''Ob''), (''app/docs/a'', ''Oa''),
              (''app/index.js'',
               ''import b from modules/b; import a from modules/a; a, b, ''),
              (''app/defaults/b'', ''Db''), (''app/defaults/a'', ''Da''),
              (''app/modules/b'', ''Mb''), (''app/modules/a'', ''Ma''),
              (''app/sagas.js'',
               ''import bSagas from modules/b/sagas.js; import aSagas from modules/a/sagas.js; aSagas, bSagas, ''),
              (''app/reducers.js'',
               ''import bReducer from modules/b/reducer.js; import aReducer from modules/a/reducer.js; a: aReducer, b: bReducer, ''),
              (''b/modules/a'', ''Ma''), (''b/modules/a/reducer.js'', ''Ra''),
              (''b/modules/b'', ''Mb''), (''b/modules/b/reducer.js'', ''Rb''),
              (''b/modules/b/sagas.js'', ''Sb''), (''b/defaults/a'', ''Da''),
              (''b/defaults/b'', ''Db''), (''b/docs/a'', ''Oa''),
              (''b/docs/b'', ''Ob'')],
             manifest_json =
               Some
                \<lparr>namespaces =
                   [(''a'', \<lparr>reducerPropName = ''a''\<rparr>),
                    (''b'', \<lparr>reducerPropName = ''b''\<rparr>)],
                   dependencies = []\<rparr>\<rparr>,
          trace =
            [ReadJson ''b/structor-namespaces.json'' True,
             InstallDependencies [] True, GetComponentTree True,
             Fs (IsExisting ''b/modules/a/reducer.js'') True,
             Fs (IsExisting ''b/modules/b/sagas.js'') True,
             InjectReducer [] ''a'' ''aReducer'' ''modules/a/reducer.js'',
             InjectSaga [] ''aSagas'' ''modules/a/sagas.js'',
             Fs (IsExisting ''b/modules/b/reducer.js'') True,
             Fs (IsExisting ''b/modules/b/sagas.js'') True,
             InjectReducer
              ''import aReducer from modules/a/reducer.js; a: aReducer, '' ''b''
              ''bReducer'' ''modules/b/reducer.js'',
             InjectSaga ''import aSagas from modules/a/sagas.js; aSagas, ''
              ''bSagas'' ''modules/b/sagas.js'',
             Fs (WriteFile ''app/reducers.js''
                  ''import bReducer from modules/b/reducer.js; import aReducer from modules/a/reducer.js; a: aReducer, b: bReducer, '')
              True,
             Fs (WriteFile ''app/sagas.js''
                  ''import bSagas from modules/b/sagas.js; import aSagas from modules/a/sagas.js; aSagas, bSagas, '')
              True,
             ReadDirectoryFlat Modules ''b/modules''
              (Some
                (Some
                  [\<lparr>dir_name = ''a'', dir_path = ''b/modules/a''\<rparr>,
                   \<lparr>dir_name = ''b'', dir_path = ''b/modules/b''\<rparr>])),
             Fs (RemoveFile Modules ''app/modules/a'') True,
             Fs (CopyFile Modules ''b/modules/a'' ''app/modules/a'') True,
             Fs (RemoveFile Modules ''app/modules/b'') True,
             Fs (CopyFile Modules ''b/modules/b'' ''app/modules/b'') True,
             ReadDirectoryFlat Defaults ''b/defaults''
              (Some
                (Some
                  [\<lparr>dir_name = ''a'', dir_path = ''b/defaults/a''\<rparr>,
                   \<lparr>dir_name = ''b'', dir_path = ''b/defaults/b''\<rparr>])),
             Fs (RemoveFile Defaults ''app/defaults/a'') True,
             Fs (CopyFile Defaults ''b/defaults/a'' ''app/defaults/a'') True,
             InjectNamespaceComponent [] ''a'' ''modules/a'',
             Fs (WriteFile ''app/index.js'' ''import a from modules/a; a, '')
              True,
             Fs (RemoveFile Defaults ''app/defaults/b'') True,
             Fs (CopyFile Defaults ''b/defaults/b'' ''app/defaults/b'') True,
             InjectNamespaceComponent ''import a from modules/a; a, '' ''b''
              ''modules/b'',
             Fs (WriteFile ''app/index.js''
                  ''import b from modules/b; import a from modules/a; a, b, '')
              True,
             ReadDirectoryFlat Docs ''b/docs''
              (Some
                (Some
                  [\<lparr>dir_name = ''a'', dir_path = ''b/docs/a''\<rparr>,
                   \<lparr>dir_name = ''b'', dir_path = ''b/docs/b''\<rparr>])),
             Fs (RemoveFile Docs ''app/docs/a'') True,
             Fs (CopyFile Docs ''b/docs/a'' ''app/docs/a'') True,
             Fs (RemoveFile Docs ''app/docs/b'') True,
             Fs (CopyFile Docs ''b/docs/b'' ''app/docs/b'') True],
          globalReducerSourceCode =
            ''import bReducer from modules/b/reducer.js; import aReducer from modules/a/reducer.js; a: aReducer, b: bReducer, '',
          globalSagasSourceCode =
            ''import bSagas from modules/b/sagas.js; import aSagas from modules/a/sagas.js; aSagas, bSagas, '',
          componentsIndexSourceCode =
            ''import b from modules/b; import a from modules/a; a, b, '',
          rejection = None\<rparr>)"
  by (simp add: model_defs sample_defs)

lemma auth_naming:
  "dirPath from_b = Some ''b''"
  "readJson (sample_env tree listing depsOk) (path_join (sample_env tree listing depsOk)
     [''b'', ''structor-namespaces.json'']) auth_world = Inr auth_manifest"
  "installDependencies (sample_env tree listing True) (dependencies auth_manifest) auth_world
     = (None, auth_world)"
  "getComponentTree (sample_env tree listing depsOk) auth_world = Inr tree"
  by (simp_all add: from_b_def sample_env_sel auth_world_def)


lemma two_naming:
  "readJson (sample_env tree listing depsOk) (path_join (sample_env tree listing depsOk)
     [''b'', ''structor-namespaces.json'']) two_world = Inr two_manifest"
  "installDependencies (sample_env tree listing True) (dependencies two_manifest) two_world
     = (None, two_world)"
  "getComponentTree (sample_env tree listing depsOk) two_world = Inr tree"
  by (simp_all add: sample_env_sel two_world_def)

section \<open>The component index\<close>

lemma install_unfold:
  assumes "dirPath opts = Some d"
    and "readJson env (path_join env [d, ''structor-namespaces.json'']) w = Inr meta"
    and "installDependencies env (dependencies meta) w = (None, w1)"
    and "getComponentTree env w1 = Inr tree"
  shows "installFromLocalDir env sch opts (init_state w) =
     thenP (rewrite_stage env (closure_of env d meta tree) (rewriteOrder sch) meta tree)
       (\<lambda>_. stage_directories env (closure_of env d meta tree) sch tree d)
       ((init_state w1)\<lparr>trace := prologue env d meta\<rparr>)"
  using assms
  by (simp add: installFromLocalDir_def thenP_def commons_readJson_def
      storage_installDependencies_def storage_getComponentTree_def log_def init_state_def
      prologue_def)

lemma install_reaches_rewrite:
  assumes "installFromLocalDir env sch opts (init_state w) = (r, st')"
    and "\<And>e. r \<noteq> Inl (External e)" and "r \<noteq> Inl SyncTypeError"
  obtains d meta w1 tree where "dirPath opts = Some d"
    "readJson env (path_join env [d, ''structor-namespaces.json'']) w = Inr meta"
    "installDependencies env (dependencies meta) w = (None, w1)"
    "getComponentTree env w1 = Inr tree"
proof -
  from assms obtain d where d: "dirPath opts = Some d"
    by (cases "dirPath opts") (auto simp: installFromLocalDir_def)
  let ?p = "path_join env [d, ''structor-namespaces.json'']"
  from assms d obtain meta where meta: "readJson env ?p w = Inr meta"
    by (cases "readJson env ?p w")
      (auto simp: installFromLocalDir_def thenP_def commons_readJson_def init_state_def)
  obtain dr w1 where dr: "installDependencies env (dependencies meta) w = (dr, w1)"
    by (cases "installDependencies env (dependencies meta) w")
  from assms d meta dr have "dr = None"
    by (cases dr)
      (auto simp: installFromLocalDir_def thenP_def commons_readJson_def init_state_def
        storage_installDependencies_def log_def)
  with dr have deps: "installDependencies env (dependencies meta) w = (None, w1)" by simp
  from assms d meta deps obtain tree where "getComponentTree env w1 = Inr tree"
    by (cases "getComponentTree env w1")
      (auto simp: installFromLocalDir_def thenP_def commons_readJson_def init_state_def
        storage_installDependencies_def storage_getComponentTree_def log_def)
  with d meta deps that show thesis by blast
qed












section \<open>Empty groups\<close>

lemma empty_error_simps [simp]:
  "(empty_error g = EmptyModulesDirectory) = (g = Modules)"
  "(EmptyModulesDirectory = empty_error g) = (g = Modules)"
  "(empty_error g = EmptyDefaultsDirectory) = (g = Defaults)"
  "(EmptyDefaultsDirectory = empty_error g) = (g = Defaults)"
  "(empty_error g = EmptyDocsDirectory) = (g = Docs)"
  "(EmptyDocsDirectory = empty_error g) = (g = Docs)"
  "empty_error g \<noteq> External e" "External e \<noteq> empty_error g"
  "empty_error g \<noteq> SyncTypeError" "SyncTypeError \<noteq> empty_error g"
  "empty_error g \<noteq> TypeError" "TypeError \<noteq> empty_error g"
  by (cases g; simp)+

lemma empty_error_inject [simp]: "empty_error g = empty_error g' \<longleftrightarrow> g = g'"
  by (cases g; cases g') simp_all

lemma carefulD:
  "careful m \<Longrightarrow> m st = (r, st') \<Longrightarrow> \<forall>g. \<forall>e\<in>set (trace st). \<not> found_empty g e \<Longrightarrow>
   verdict r (trace st')"
  unfolding careful_def by blast

lemma careful_thenP:
  assumes "careful m" "\<And>x. careful (f x)"
  shows "careful (thenP m f)"
  unfolding careful_def
proof (intro allI impI)
  fix st r st'
  assume run: "thenP m f st = (r, st')" and N: "\<forall>g. \<forall>e\<in>set (trace st). \<not> found_empty g e"
  from run show "verdict r (trace st')"
  proof (cases rule: thenP_E)
    case (rejects e)
    from carefulD [OF assms(1) rejects(1) N]
    show ?thesis using rejects(2) by (simp add: verdict_def)
  next
    case (resolves x s1)
    from carefulD [OF assms(1) resolves(1) N]
    have "\<forall>g. \<forall>e\<in>set (trace s1). \<not> found_empty g e"
      by (simp add: verdict_def)
    from carefulD [OF assms(2) resolves(2) this]
    show ?thesis .
  qed
qed

lemma careful_emits:
  assumes "emits K m" and "\<And>e g. K e \<Longrightarrow> \<not> found_empty g e"
    and "\<And>st r st' g. m st = (r, st') \<Longrightarrow> r \<noteq> Inl (empty_error g)"
  shows "careful m"
  unfolding careful_def
proof (intro allI impI)
  fix st r st'
  assume run: "m st = (r, st')" and N: "\<forall>g. \<forall>e\<in>set (trace st). \<not> found_empty g e"
  from assms(1) run obtain evs where "trace st' = trace st @ evs" "\<forall>e\<in>set evs. K e"
    unfolding emits_def by blast
  with assms(2) N have "\<forall>g. \<forall>e\<in>set (trace st'). \<not> found_empty g e"
    by auto
  with assms(3) [OF run] show "verdict r (trace st')"
    by (simp add: verdict_def)
qed

lemma careful_list_dirs: "careful (list_dirs env g p)"
  unfolding careful_def
proof (intro allI impI)
  fix st r st'
  assume run: "list_dirs env g p st = (r, st')" and N: "\<forall>g. \<forall>e\<in>set (trace st). \<not> found_empty g e"
  from run show "verdict r (trace st')"
  proof (rule list_dirs_E)
    fix lst
    assume "st' = log [ReadDirectoryFlat g p lst] st"
      and "(\<exists>ds. r = Inr ds \<and> ds \<noteq> [] \<and> lst = Some (Some ds)) \<or>
           r = Inl (empty_error g) \<and> (lst = Some None \<or> lst = Some (Some [])) \<or>
           (\<exists>e. r = Inl (External e) \<and> lst = None)"
    with N show ?thesis
      by (auto simp: verdict_def log_def)
  qed
qed

lemma copy_event_not_empty: "copy_event idx g e \<Longrightarrow> \<not> found_empty g' e"
  by (induction idx g e rule: copy_event.induct) simp_all

lemma careful_copy_stage: "careful (copy_stage env cx sched g tree ds)"
proof (rule careful_emits)
  show "emits (copy_event (treeIndexFilePath cx) g) (copy_stage env cx sched g tree ds)"
    by (rule emits_copy_stage)
  show "\<not> found_empty g' e" if "copy_event (treeIndexFilePath cx) g e" for e g'
    using that by (rule copy_event_not_empty)
  show "r \<noteq> Inl (empty_error g')" if "copy_stage env cx sched g tree ds st = (r, st')" for st r st' g'
    using copy_stage_result [OF that] by auto
qed

lemma rewrite_stage_events:
  assumes "rewrite_stage env cx sched meta tree st = (r, st')"
  shows "\<exists>evs. trace st' = trace st @ evs \<and>
     (\<forall>e\<in>set evs. rewrite_event e \<or> (\<exists>p t ok. e = Fs (WriteFile p t) ok)) \<and>
     (r = Inr () \<or> (\<exists>e. r = Inl (External e)))"
proof -
  from rewrite_stage_result [OF assms] obtain evs where evs: "\<forall>e\<in>set evs. rewrite_event e"
    and d: "(\<exists>e. r = Inl (External e) \<and> trace st' = trace st @ evs) \<or>
       (\<exists>ok1 rest t1. trace st' = trace st @ evs @ Fs (WriteFile (reducersFilePath tree) t1) ok1 # rest \<and>
          ((\<not> ok1 \<and> rest = [] \<and> (\<exists>e. r = Inl (External e))) \<or>
           (ok1 \<and> (\<exists>ok2 t2. rest = [Fs (WriteFile (sagasFilePath tree) t2) ok2] \<and>
              ((ok2 \<and> r = Inr ()) \<or> (\<not> ok2 \<and> (\<exists>e. r = Inl (External e))))))))"
    by blast
  from d show ?thesis
  proof
    assume "\<exists>e. r = Inl (External e) \<and> trace st' = trace st @ evs"
    with evs show ?thesis by blast
  next
    assume "\<exists>ok1 rest t1. trace st' = trace st @ evs @ Fs (WriteFile (reducersFilePath tree) t1) ok1 # rest \<and>
          ((\<not> ok1 \<and> rest = [] \<and> (\<exists>e. r = Inl (External e))) \<or>
           (ok1 \<and> (\<exists>ok2 t2. rest = [Fs (WriteFile (sagasFilePath tree) t2) ok2] \<and>
              ((ok2 \<and> r = Inr ()) \<or> (\<not> ok2 \<and> (\<exists>e. r = Inl (External e)))))))"
    then obtain ok1 rest t1 where tr0: "trace st' = trace st @ evs @ Fs (WriteFile (reducersFilePath tree) t1) ok1 # rest"
      and c0: "(\<not> ok1 \<and> rest = [] \<and> (\<exists>e. r = Inl (External e))) \<or>
           (ok1 \<and> (\<exists>ok2 t2. rest = [Fs (WriteFile (sagasFilePath tree) t2) ok2] \<and>
              ((ok2 \<and> r = Inr ()) \<or> (\<not> ok2 \<and> (\<exists>e. r = Inl (External e))))))"
      by blast
    from tr0 have tr: "trace st' = trace st @ (evs @ Fs (WriteFile (reducersFilePath tree) t1) ok1 # rest)"
      by simp
    from c0 have c: "(rest = [] \<and> (\<exists>e. r = Inl (External e))) \<or>
           (\<exists>ok2 t2. rest = [Fs (WriteFile (sagasFilePath tree) t2) ok2] \<and>
              (r = Inr () \<or> (\<exists>e. r = Inl (External e))))"
      by blast
    from c have "\<forall>e\<in>set rest. \<exists>p t ok. e = Fs (WriteFile p t) ok"
      and "r = Inr () \<or> (\<exists>e. r = Inl (External e))"
      by auto
    with evs have "(\<forall>e\<in>set (evs @ Fs (WriteFile (reducersFilePath tree) t1) ok1 # rest).
        rewrite_event e \<or> (\<exists>p t ok. e = Fs (WriteFile p t) ok))"
      by auto
    with tr \<open>r = Inr () \<or> (\<exists>e. r = Inl (External e))\<close> show ?thesis by blast
  qed
qed

lemma emits_rewrite_stage:
  "emits (\<lambda>e. rewrite_event e \<or> (\<exists>p t ok. e = Fs (WriteFile p t) ok))
     (rewrite_stage env cx sched meta tree)"
  unfolding emits_def using rewrite_stage_events by blast

lemma careful_rewrite_stage: "careful (rewrite_stage env cx sched meta tree)"
proof (rule careful_emits)
  show "emits (\<lambda>e. rewrite_event e \<or> (\<exists>p t ok. e = Fs (WriteFile p t) ok))
     (rewrite_stage env cx sched meta tree)"
    by (rule emits_rewrite_stage)
  show "\<not> found_empty g e" if "rewrite_event e \<or> (\<exists>p t ok. e = Fs (WriteFile p t) ok)" for e g
    using that by (cases e) auto
  show "r \<noteq> Inl (empty_error g)" if "rewrite_stage env cx sched meta tree st = (r, st')" for st r st' g
    using rewrite_stage_events [OF that] by auto
qed

lemma careful_stage_directories: "careful (stage_directories env cx sch tree d)"
  unfolding stage_directories_def stage_group_def
  by (intro careful_thenP careful_list_dirs careful_copy_stage)

lemma careful_commons_readJson: "careful (commons_readJson env p)"
  by (auto simp: careful_def commons_readJson_def verdict_def log_def split: sum.splits)

lemma careful_storage_getComponentTree: "careful (storage_getComponentTree env)"
  by (auto simp: careful_def storage_getComponentTree_def verdict_def log_def split: sum.splits)

lemma careful_storage_installDependencies: "careful (storage_installDependencies env deps)"
  by (auto simp: careful_def storage_installDependencies_def verdict_def log_def
      split: prod.splits option.splits)

lemma install_verdict:
  "verdict (fst (installFromLocalDir env sch opts (init_state w)))
     (trace (snd (installFromLocalDir env sch opts (init_state w))))"
proof (cases "dirPath opts")
  case None
  then show ?thesis
    by (simp add: installFromLocalDir_def verdict_def init_state_def)
next
  case (Some d)
  have "careful (thenP (commons_readJson env (path_join env [d, ''structor-namespaces.json'']))
            (\<lambda>namespacesMeta.
          thenP (storage_installDependencies env (dependencies namespacesMeta))
            (\<lambda>_.
          thenP (storage_getComponentTree env)
            (\<lambda>componentTree.
          thenP (rewrite_stage env (closure_of env d namespacesMeta componentTree)
                   (rewriteOrder sch) namespacesMeta componentTree)
            (\<lambda>_.
          stage_directories env (closure_of env d namespacesMeta componentTree) sch
            componentTree d)))))"
    by (intro careful_thenP careful_commons_readJson careful_storage_installDependencies
        careful_storage_getComponentTree careful_rewrite_stage careful_stage_directories)
  moreover have "\<forall>g. \<forall>e\<in>set (trace (init_state w)). \<not> found_empty g e"
    by (simp add: init_state_def)
  ultimately show ?thesis
    using Some unfolding careful_def installFromLocalDir_def
    by (simp add: prod.collapse)
qed

lemma install_after_rewrite:
  assumes "dirPath opts = Some d"
    and "readJson env (path_join env [d, ''structor-namespaces.json'']) w = Inr meta"
    and "installDependencies env (dependencies meta) w = (None, w1)"
    and "getComponentTree env w1 = Inr tree"
    and run: "installFromLocalDir env sch opts (init_state w) = (r, st')"
  obtains (rejected) evs e where "\<forall>e\<in>set evs. rewrite_event e"
      "r = Inl (External e)" "trace st' = prologue env d meta @ evs"
      "rejection (run_tasks env (closure_of env d meta tree) (rewriteOrder sch) (rewrite_tasks meta)
         ((init_state w1)\<lparr>trace := prologue env d meta,
            globalReducerSourceCode := reducersSourceCode tree,
            globalSagasSourceCode := sagasSourceCode tree, rejection := None\<rparr>)) \<noteq> None"
  | (written) evs ok1 rest where "\<forall>e\<in>set evs. rewrite_event e"
      "mset (reducer_injections evs) = image_mset (reducer_injection_of env) (mset (namespaces meta))"
      "mset (saga_injections evs) = image_mset (saga_injection_of env) (mset (namespaces meta))"
      "trace st' = prologue env d meta @ evs @
         Fs (WriteFile (reducersFilePath tree)
               (apply_reducer_injections env (reducersSourceCode tree) (reducer_injections evs))) ok1 # rest"
      "(\<not> ok1 \<and> rest = [] \<and> (\<exists>e. r = Inl (External e))) \<or>
       (ok1 \<and> rest = [Fs (WriteFile (sagasFilePath tree)
              (apply_saga_injections env (sagasSourceCode tree) (saga_injections evs))) False] \<and>
          (\<exists>e. r = Inl (External e))) \<or>
       (ok1 \<and> (\<exists>s4 rest2.
          rest = Fs (WriteFile (sagasFilePath tree)
              (apply_saga_injections env (sagasSourceCode tree) (saga_injections evs))) True # rest2 \<and>
          trace s4 = prologue env d meta @ evs @
            [Fs (WriteFile (reducersFilePath tree)
               (apply_reducer_injections env (reducersSourceCode tree) (reducer_injections evs))) True,
             Fs (WriteFile (sagasFilePath tree)
              (apply_saga_injections env (sagasSourceCode tree) (saga_injections evs))) True] \<and>
          stage_directories env (closure_of env d meta tree) sch tree d s4 = (r, st') \<and>
          trace st' = trace s4 @ rest2 \<and>
          (\<forall>e\<in>set rest2. staging_event (indexFilePath tree) e)))"
proof -
  let ?cx = "closure_of env d meta tree"
  let ?st3 = "(init_state w1)\<lparr>trace := prologue env d meta\<rparr>"
  have tr3: "trace ?st3 = prologue env d meta" by simp
  have st3: "?st3\<lparr>globalReducerSourceCode := reducersSourceCode tree,
                 globalSagasSourceCode := sagasSourceCode tree, rejection := None\<rparr>
     = (init_state w1)\<lparr>trace := prologue env d meta,
            globalReducerSourceCode := reducersSourceCode tree,
            globalSagasSourceCode := sagasSourceCode tree, rejection := None\<rparr>"
    by simp
  have idx: "treeIndexFilePath ?cx = indexFilePath tree"
    by (simp add: closure_of_def)
  from run have "thenP (rewrite_stage env ?cx (rewriteOrder sch) meta tree)
       (\<lambda>_. stage_directories env ?cx sch tree d) ?st3 = (r, st')"
    by (simp add: install_unfold [OF assms(1-4)])
  then show thesis
  proof (cases rule: thenP_E)
    case (rejects e)
    from rewrite_stage_result [OF rejects(1)] rejects(2) tr3 st3 show thesis
      by (elim exE conjE disjE) (auto intro: rejected written)
  next
    case (resolves x s4)
    from stage_directories_events [of ?cx env sch tree d] resolves(2) idx
    obtain rest2 where rest2: "trace st' = trace s4 @ rest2"
      "\<forall>e\<in>set rest2. staging_event (indexFilePath tree) e"
      unfolding emits_def by metis
    from rewrite_stage_result [OF resolves(1)] obtain evs where evs: "\<forall>e\<in>set evs. rewrite_event e"
      "mset (reducer_injections evs) = image_mset (reducer_injection_of env) (mset (namespaces meta))"
      "mset (saga_injections evs) = image_mset (saga_injection_of env) (mset (namespaces meta))"
      "trace s4 = prologue env d meta @ evs @
            [Fs (WriteFile (reducersFilePath tree)
               (apply_reducer_injections env (reducersSourceCode tree) (reducer_injections evs))) True,
             Fs (WriteFile (sagasFilePath tree)
              (apply_saga_injections env (sagasSourceCode tree) (saga_injections evs))) True]"
      using tr3 by auto
    show thesis
    proof (rule written [OF evs(1-3)])
      show "trace st' = prologue env d meta @ evs @
         Fs (WriteFile (reducersFilePath tree)
               (apply_reducer_injections env (reducersSourceCode tree) (reducer_injections evs))) True #
         (Fs (WriteFile (sagasFilePath tree)
              (apply_saga_injections env (sagasSourceCode tree) (saga_injections evs))) True # rest2)"
        using rest2(1) evs(4) by simp
      show "(\<not> True \<and> Fs (WriteFile (sagasFilePath tree)
              (apply_saga_injections env (sagasSourceCode tree) (saga_injections evs))) True # rest2 = [] \<and>
            (\<exists>e. r = Inl (External e))) \<or>
       (True \<and> Fs (WriteFile (sagasFilePath tree)
              (apply_saga_injections env (sagasSourceCode tree) (saga_injections evs))) True # rest2
          = [Fs (WriteFile (sagasFilePath tree)
              (apply_saga_injections env (sagasSourceCode tree) (saga_injections evs))) False] \<and>
          (\<exists>e. r = Inl (External e))) \<or>
       (True \<and> (\<exists>s4 rest2'.
          Fs (WriteFile (sagasFilePath tree)
              (apply_saga_injections env (sagasSourceCode tree) (saga_injections evs))) True # rest2
           = Fs (WriteFile (sagasFilePath tree)
              (apply_saga_injections env (sagasSourceCode tree) (saga_injections evs))) True # rest2' \<and>
          trace s4 = prologue env d meta @ evs @
            [Fs (WriteFile (reducersFilePath tree)
               (apply_reducer_injections env (reducersSourceCode tree) (reducer_injections evs))) True,
             Fs (WriteFile (sagasFilePath tree)
              (apply_saga_injections env (sagasSourceCode tree) (saga_injections evs))) True] \<and>
          stage_directories env (closure_of env d meta tree) sch tree d s4 = (r, st') \<and>
          trace st' = trace s4 @ rest2' \<and>
          (\<forall>e\<in>set rest2'. staging_event (indexFilePath tree) e)))"
        using rest2 evs(4) resolves(2) by blast
    qed
  qed
qed

lemma stage_group_outcome:
  assumes "stage_group env cx sched g tree p st = (r, st')"
  obtains (rejects) e where "r = Inl (External e)"
  | (empty) lst where "r = Inl (empty_error g)" "lst = None \<or> lst = Some []"
      "trace st' = trace st @ [ReadDirectoryFlat g p (Some lst)]"
  | (staged) ds cp where "r = Inr ()" "ds \<noteq> []"
      "trace st' = trace st @ ReadDirectoryFlat g p (Some (Some ds)) # cp"
      "\<forall>e\<in>set cp. copy_event (treeIndexFilePath cx) g e"
      "mset (copies g cp) = image_mset (copy_of env cx g) (mset ds)"
      "pending_removals (trace st') \<subseteq> pending_removals (trace st)"
proof -
  from assms have "thenP (list_dirs env g p) (copy_stage env cx sched g tree) st = (r, st')"
    by (simp add: stage_group_def)
  then show thesis
  proof (cases rule: thenP_E)
    case (rejects e)
    from rejects(1) show ?thesis
    proof (rule list_dirs_E)
      fix lst
      assume "st' = log [ReadDirectoryFlat g p lst] st"
        and "(\<exists>ds. Inl e = Inr ds \<and> ds \<noteq> [] \<and> lst = Some (Some ds)) \<or>
             Inl e = Inl (empty_error g) \<and> (lst = Some None \<or> lst = Some (Some [])) \<or>
             (\<exists>e'. Inl e = Inl (External e') \<and> lst = None)"
      with rejects(2) that(1,2) show ?thesis
        by (auto simp: log_def)
    qed
  next
    case (resolves ds s1)
    from resolves(1) have s1: "trace s1 = trace st @ [ReadDirectoryFlat g p (Some (Some ds))]" "ds \<noteq> []"
      by (auto elim!: list_dirs_E simp: log_def)
    then have p1: "pending_removals (trace s1) = pending_removals (trace st)"
      by (simp add: pending_removals_snoc)
    from copy_stage_result [OF resolves(2)] obtain cp where cp: "trace st' = trace s1 @ cp"
      "\<forall>e\<in>set cp. copy_event (treeIndexFilePath cx) g e"
      "(\<exists>e. r = Inl (External e)) \<or>
            (r = Inr () \<and> (\<forall>e\<in>set cp. succeeded e) \<and>
             mset (copies g cp) = image_mset (copy_of env cx g) (mset ds) \<and>
             pending_removals (trace st') \<subseteq> pending_removals (trace s1))"
      by blast
    from cp(3) show ?thesis
    proof
      assume "\<exists>e. r = Inl (External e)"
      then show ?thesis using that(1) by blast
    next
      assume "r = Inr () \<and> (\<forall>e\<in>set cp. succeeded e) \<and>
             mset (copies g cp) = image_mset (copy_of env cx g) (mset ds) \<and>
             pending_removals (trace st') \<subseteq> pending_removals (trace s1)"
      with s1 cp(1,2) p1 show ?thesis
        by (intro that(3) [of ds cp]) simp_all
    qed
  qed
qed

text \<open>
  Claim C10. When \<^verbatim>\<open>installFromLocalDir\<close> rejects with the error of an empty modules
  directory, the manifest was read, the dependencies were installed and the component
  tree was read, and the log of the run is: these three calls; the events of the
  namespace loop, which hold one reducer injection and one side-effect injection for
  each namespace of the manifest; a write of the reducer registry file that resolved,
  with the text all these reducer injections give; a write of the side-effect registry
  file that resolved, with the text all these side-effect injections give; and, last,
  the listing of the modules directory that found no directory. Both registries are
  rewritten on disk before the error is raised.
\<close>

theorem empty_modules_found_after_write_backs:
  assumes "fst (installFromLocalDir env sch opts (init_state w)) = Inl EmptyModulesDirectory"
  shows "\<exists>d meta w1 tree evs lst.
     dirPath opts = Some d \<and>
     readJson env (path_join env [d, ''structor-namespaces.json'']) w = Inr meta \<and>
     installDependencies env (dependencies meta) w = (None, w1) \<and>
     getComponentTree env w1 = Inr tree \<and>
     (\<forall>e\<in>set evs. rewrite_event e) \<and>
     mset (reducer_injections evs) = image_mset (reducer_injection_of env) (mset (namespaces meta)) \<and>
     mset (saga_injections evs) = image_mset (saga_injection_of env) (mset (namespaces meta)) \<and>
     (lst = None \<or> lst = Some []) \<and>
     trace (snd (installFromLocalDir env sch opts (init_state w))) =
       prologue env d meta @ evs @
       [Fs (WriteFile (reducersFilePath tree)
              (apply_reducer_injections env (reducersSourceCode tree) (reducer_injections evs))) True,
        Fs (WriteFile (sagasFilePath tree)
              (apply_saga_injections env (sagasSourceCode tree) (saga_injections evs))) True,
        ReadDirectoryFlat Modules (path_join env [d, ''modules'']) (Some lst)]"
proof -
  obtain r st' where run: "installFromLocalDir env sch opts (init_state w) = (r, st')"
    by (cases "installFromLocalDir env sch opts (init_state w)")
  with assms have r: "r = Inl EmptyModulesDirectory" by simp
  from run r obtain d meta w1 tree where nm: "dirPath opts = Some d"
    "readJson env (path_join env [d, ''structor-namespaces.json'']) w = Inr meta"
    "installDependencies env (dependencies meta) w = (None, w1)"
    "getComponentTree env w1 = Inr tree"
    by (elim install_reaches_rewrite) auto
  let ?cx = "closure_of env d meta tree"
  from nm run show ?thesis
  proof (cases rule: install_after_rewrite)
    case (rejected evs e)
    with r show ?thesis by simp
  next
    case (written evs ok1 rest)
    from written(5) r obtain s4 rest2 where s4:
      "trace s4 = prologue env d meta @ evs @
            [Fs (WriteFile (reducersFilePath tree)
               (apply_reducer_injections env (reducersSourceCode tree) (reducer_injections evs))) True,
             Fs (WriteFile (sagasFilePath tree)
              (apply_saga_injections env (sagasSourceCode tree) (saga_injections evs))) True]"
      "stage_directories env ?cx sch tree d s4 = (r, st')"
      by auto
    from s4(2) have "thenP (stage_group env ?cx (modulesOrder sch) Modules tree (path_join env [d, ''modules'']))
       (\<lambda>_. thenP (stage_group env ?cx (defaultsOrder sch) Defaults tree (path_join env [d, ''defaults'']))
         (\<lambda>_. stage_group env ?cx (docsOrder sch) Docs tree (path_join env [d, ''docs'']))) s4 = (r, st')"
      by (simp add: stage_directories_def)
    then have "\<exists>lst. (lst = None \<or> lst = Some []) \<and>
        trace st' = trace s4 @ [ReadDirectoryFlat Modules (path_join env [d, ''modules'']) (Some lst)]"
    proof (cases rule: thenP_E)
      case (rejects e)
      from rejects(1) rejects(2) r show ?thesis
        by (cases rule: stage_group_outcome) auto
    next
      case (resolves x s5)
      from resolves(2) show ?thesis
      proof (cases rule: thenP_E)
        case (rejects e)
        from rejects(1) rejects(2) r show ?thesis
          by (cases rule: stage_group_outcome) auto
      next
        case (resolves y s6)
        from resolves(2) r show ?thesis
          by (cases rule: stage_group_outcome) auto
      qed
    qed
    with s4(1) written(1-3) nm run show ?thesis
      by auto
  qed
qed

theorem empty_modules_found_after_write_backs_witness:
  "fst no_modules_run = Inl EmptyModulesDirectory \<and>
   map_of (disk auth_world) ''app/reducers.js'' = None \<and>
   map_of (disk (world (snd no_modules_run))) ''app/reducers.js''
     = Some ''import authReducer from modules/auth/reducer.js; auth: authReducer, '' \<and>
   map_of (disk (world (snd no_modules_run))) ''app/sagas.js''
     = Some ''import authSagas from modules/auth/sagas.js; authSagas, '' \<and>
   drop 7 (trace (snd no_modules_run))
     = [Fs (WriteFile ''app/reducers.js''
              ''import authReducer from modules/auth/reducer.js; auth: authReducer, '') True,
        Fs (WriteFile ''app/sagas.js''
              ''import authSagas from modules/auth/sagas.js; authSagas, '') True,
        ReadDirectoryFlat Modules ''b/modules'' (Some (Some []))]"
proof -
  have before: "map_of (disk auth_world) ''app/reducers.js'' = None"
    by (simp add: auth_world_def)
  have "fst no_modules_run = Inl EmptyModulesDirectory"
    by (simp add: install_no_modules)
  from empty_modules_found_after_write_backs [OF this] before show ?thesis
    by (simp add: install_no_modules)
qed

lemma copies_none:
  "\<forall>e\<in>set evs. \<forall>s p. e \<noteq> Fs (CopyFile g s p) True \<Longrightarrow> copies g evs = []"
  by (induction g evs rule: copies.induct) auto

lemma copies_other_group:
  assumes "\<forall>e\<in>set cp. copy_event idx g e" "g' \<noteq> g"
  shows "copies g' cp = []"
proof (rule copies_none, intro ballI allI notI)
  fix e s p assume "e \<in> set cp" "e = Fs (CopyFile g' s p) True"
  with assms show False by auto
qed

lemma note_removal_empty:
  "\<forall>g p. e \<noteq> Fs (RemoveFile g p) True \<Longrightarrow> note_removal {} e = {}"
  by (induction "{} :: (group \<times> path) set" e rule: note_removal.induct) auto

lemma pending_removals_none:
  "\<forall>e\<in>set tr. \<forall>g p. e \<noteq> Fs (RemoveFile g p) True \<Longrightarrow> pending_removals tr = {}"
proof (induction tr rule: rev_induct)
  case Nil
  then show ?case by (simp add: pending_removals_def)
next
  case (snoc e tr)
  then show ?case by (simp add: pending_removals_snoc note_removal_empty)
qed

lemma destDirPath_closure_of:
  "destDirPath env (closure_of env d meta tree) g item = install_dest env g item"
  by (cases g) (simp_all add: destDirPath_def closure_of_def install_dest_def)

lemma staged_so_far_start:
  assumes "\<forall>e\<in>set tr. (\<exists>p ok. e = ReadJson p ok) \<or> (\<exists>ds ok. e = InstallDependencies ds ok) \<or>
      (\<exists>ok. e = GetComponentTree ok) \<or> rewrite_event e \<or> (\<exists>p t ok. e = Fs (WriteFile p t) ok)"
  shows "staged_so_far env d [] tr"
proof -
  have q: "\<forall>g p s ok. e \<noteq> Fs (RemoveFile g p) ok \<and> e \<noteq> Fs (CopyFile g s p) ok" if "e \<in> set tr" for e
  proof -
    from assms that have "(\<exists>p ok. e = ReadJson p ok) \<or> (\<exists>ds ok. e = InstallDependencies ds ok) \<or>
      (\<exists>ok. e = GetComponentTree ok) \<or> rewrite_event e \<or> (\<exists>p t ok. e = Fs (WriteFile p t) ok)"
      by blast
    then show ?thesis by (elim disjE exE) auto
  qed
  have "pending_removals tr = {}"
    by (intro pending_removals_none) (use q in blast)
  moreover have "copies g tr = []" for g
    by (intro copies_none) (use q in blast)
  ultimately show ?thesis by (simp add: staged_so_far_def)
qed

lemma staged_so_far_step:
  assumes inv: "staged_so_far env d gs (trace st)" and g: "g \<notin> set gs"
    and run: "stage_group env (closure_of env d meta tree) sched g tree
                (path_join env [d, group_dir g]) st = (Inr x, st')"
  shows "staged_so_far env d (g # gs) (trace st')"
  using run
proof (cases rule: stage_group_outcome)
  case (staged ds cp)
  let ?L = "ReadDirectoryFlat g (path_join env [d, group_dir g]) (Some (Some ds))"
  have tr: "trace st' = trace st @ ?L # cp" by (rule staged(3))
  have cg: "copies h (trace st') = copies h (trace st) @ copies h cp" for h
    by (simp add: tr copies_append)
  have other: "copies h cp = []" if "h \<noteq> g" for h
    using staged(4) that by (rule copies_other_group)
  have "group_staged env d g (trace st')"
    unfolding group_staged_def
  proof (intro exI [of _ ds] conjI)
    show "ds \<noteq> []" by (rule staged(2))
    show "?L \<in> set (trace st')" by (simp add: tr)
    from inv g have "copies g (trace st) = []" by (simp add: staged_so_far_def)
    with staged(5) show "mset (copies g (trace st')) =
        image_mset (\<lambda>item. (dir_path item, install_dest env g item)) (mset ds)"
      by (simp add: cg copy_of_def [abs_def] destDirPath_closure_of)
  qed
  moreover have "group_staged env d h (trace st')" if "h \<in> set gs" for h
  proof -
    from that g have "h \<noteq> g" by auto
    from inv that obtain hs where hs: "hs \<noteq> []"
      "ReadDirectoryFlat h (path_join env [d, group_dir h]) (Some (Some hs)) \<in> set (trace st)"
      "mset (copies h (trace st)) = image_mset (\<lambda>item. (dir_path item, install_dest env h item)) (mset hs)"
      unfolding staged_so_far_def group_staged_def by blast
    moreover from hs(2) have
      "ReadDirectoryFlat h (path_join env [d, group_dir h]) (Some (Some hs)) \<in> set (trace st')"
      by (simp add: tr)
    moreover have "copies h (trace st') = copies h (trace st)"
      by (simp add: cg other [OF \<open>h \<noteq> g\<close>])
    ultimately show ?thesis
      unfolding group_staged_def by (intro exI [of _ hs]) simp
  qed
  moreover from inv staged(6) have "pending_removals (trace st') = {}"
    by (auto simp: staged_so_far_def)
  moreover have "copies h (trace st') = []" if "h \<notin> set (g # gs)" for h
    using that inv by (simp add: cg other staged_so_far_def)
  ultimately show ?thesis
    by (simp add: staged_so_far_def)
qed simp_all

lemma stage_group_empty:
  assumes "stage_group env cx sched g tree p st = (Inl (empty_error g'), st')"
  shows "g' = g \<and> (\<exists>lst. (lst = None \<or> lst = Some []) \<and>
           trace st' = trace st @ [ReadDirectoryFlat g p (Some lst)])"
  using assms by (cases rule: stage_group_outcome) auto

text \<open>
  Claim C3. For each of the three groups, a run of \<^verbatim>\<open>installFromLocalDir\<close> rejects with
  the \<^verbatim>\<open>Empty...Directory\<close> error of the group exactly when its log holds a listing of
  that group that found no directory. When it does, this listing is the last entry of
  the log; every group processed before it is staged in the log up to there (it was
  listed, and its successful copies are one copy of each listed directory to its
  destination); and no destination is left removed without having been copied again.
  No call follows the listing, so nothing undoes these copies.
\<close>

theorem empty_group_rejects_without_rollback:
  "((\<exists>e\<in>set (trace (snd (installFromLocalDir env sch opts (init_state w)))). found_empty g e)
      \<longleftrightarrow> fst (installFromLocalDir env sch opts (init_state w)) = Inl (empty_error g)) \<and>
   (fst (installFromLocalDir env sch opts (init_state w)) = Inl (empty_error g) \<longrightarrow>
      (\<exists>d pre lst.
         dirPath opts = Some d \<and>
         trace (snd (installFromLocalDir env sch opts (init_state w)))
           = pre @ [ReadDirectoryFlat g (path_join env [d, group_dir g]) (Some lst)] \<and>
         (lst = None \<or> lst = Some []) \<and>
         (\<forall>g'\<in>set (groups_before g). group_staged env d g' pre) \<and>
         pending_removals pre = {}))"
proof (intro conjI impI)
  show "(\<exists>e\<in>set (trace (snd (installFromLocalDir env sch opts (init_state w)))). found_empty g e)
      \<longleftrightarrow> fst (installFromLocalDir env sch opts (init_state w)) = Inl (empty_error g)"
    using install_verdict [of env sch opts w] by (simp add: verdict_def)
next
  assume a: "fst (installFromLocalDir env sch opts (init_state w)) = Inl (empty_error g)"
  obtain r st' where run: "installFromLocalDir env sch opts (init_state w) = (r, st')"
    by (cases "installFromLocalDir env sch opts (init_state w)")
  with a have r: "r = Inl (empty_error g)" by simp
  from run r obtain d meta w1 tree where nm: "dirPath opts = Some d"
    "readJson env (path_join env [d, ''structor-namespaces.json'']) w = Inr meta"
    "installDependencies env (dependencies meta) w = (None, w1)"
    "getComponentTree env w1 = Inr tree"
    by (elim install_reaches_rewrite) auto
  let ?cx = "closure_of env d meta tree"
  have goal: "\<exists>pre lst. trace st' = pre @ [ReadDirectoryFlat g (path_join env [d, group_dir g]) (Some lst)] \<and>
         (lst = None \<or> lst = Some []) \<and>
         (\<forall>g'\<in>set (groups_before g). group_staged env d g' pre) \<and>
         pending_removals pre = {}"
    using nm run
  proof (cases rule: install_after_rewrite)
    case (rejected evs e)
    with r show ?thesis by simp
  next
    case (written evs ok1 rest)
    from written(5) r obtain s4 where s4:
      "trace s4 = prologue env d meta @ evs @
            [Fs (WriteFile (reducersFilePath tree)
               (apply_reducer_injections env (reducersSourceCode tree) (reducer_injections evs))) True,
             Fs (WriteFile (sagasFilePath tree)
              (apply_saga_injections env (sagasSourceCode tree) (saga_injections evs))) True]"
      "stage_directories env ?cx sch tree d s4 = (r, st')"
      by auto
    have i0: "staged_so_far env d [] (trace s4)"
      using written(1) by (intro staged_so_far_start) (auto simp: s4(1) prologue_def)
    from s4(2) have "thenP (stage_group env ?cx (modulesOrder sch) Modules tree (path_join env [d, group_dir Modules]))
       (\<lambda>_. thenP (stage_group env ?cx (defaultsOrder sch) Defaults tree (path_join env [d, group_dir Defaults]))
         (\<lambda>_. stage_group env ?cx (docsOrder sch) Docs tree (path_join env [d, group_dir Docs]))) s4 = (r, st')"
      by (simp add: stage_directories_def)
    then show ?thesis
    proof (cases rule: thenP_E)
      case (rejects e)
      with r have "stage_group env ?cx (modulesOrder sch) Modules tree
          (path_join env [d, group_dir Modules]) s4 = (Inl (empty_error g), st')"
        by simp
      from stage_group_empty [OF this] i0 show ?thesis
        by (auto simp: staged_so_far_def)
    next
      case (resolves x s5)
      from staged_so_far_step [OF i0 _ resolves(1)]
      have i1: "staged_so_far env d [Modules] (trace s5)" by simp
      from resolves(2) show ?thesis
      proof (cases rule: thenP_E)
        case (rejects e)
        with r have "stage_group env ?cx (defaultsOrder sch) Defaults tree
            (path_join env [d, group_dir Defaults]) s5 = (Inl (empty_error g), st')"
          by simp
        from stage_group_empty [OF this] i1 show ?thesis
          by (auto simp: staged_so_far_def)
      next
        case (resolves y s6)
        from staged_so_far_step [OF i1 _ resolves(1)]
        have i2: "staged_so_far env d [Defaults, Modules] (trace s6)" by simp
        from resolves(2) r have "stage_group env ?cx (docsOrder sch) Docs tree
            (path_join env [d, group_dir Docs]) s6 = (Inl (empty_error g), st')"
          by simp
        from stage_group_empty [OF this] i2 show ?thesis
          by (auto simp: staged_so_far_def)
      qed
    qed
  qed
  with nm(1) run show "\<exists>d pre lst.
         dirPath opts = Some d \<and>
         trace (snd (installFromLocalDir env sch opts (init_state w)))
           = pre @ [ReadDirectoryFlat g (path_join env [d, group_dir g]) (Some lst)] \<and>
         (lst = None \<or> lst = Some []) \<and>
         (\<forall>g'\<in>set (groups_before g). group_staged env d g' pre) \<and>
         pending_removals pre = {}"
    by auto
qed

theorem empty_group_rejects_without_rollback_witness:
  "fst no_defaults_run = Inl EmptyDefaultsDirectory \<and>
   (\<exists>e\<in>set (trace (snd no_defaults_run)). found_empty Defaults e) \<and>
   group_staged no_defaults_env ''b'' Modules (butlast (trace (snd no_defaults_run))) \<and>
   copies Modules (trace (snd no_defaults_run)) = [(''b/modules/auth'', ''app/modules/auth'')] \<and>
   map_of (disk (world (snd no_defaults_run))) ''app/modules/auth'' = Some ''M''"
proof -
  have r: "fst no_defaults_run = Inl (empty_error Defaults)"
    by (simp add: install_no_defaults)
  with empty_group_rejects_without_rollback [of no_defaults_env in_order from_b auth_world Defaults]
  obtain d pre lst where "dirPath from_b = Some d"
    and tr: "trace (snd no_defaults_run)
           = pre @ [ReadDirectoryFlat Defaults (path_join no_defaults_env [d, group_dir Defaults])
                      (Some lst)]"
    and st: "\<forall>g'\<in>set (groups_before Defaults). group_staged no_defaults_env d g' pre"
    and found: "\<exists>e\<in>set (trace (snd no_defaults_run)). found_empty Defaults e"
    by blast
  then have d: "d = ''b''" by (simp add: from_b_def)
  from tr have "pre = butlast (trace (snd no_defaults_run))" by simp
  with st d have "group_staged no_defaults_env ''b'' Modules (butlast (trace (snd no_defaults_run)))"
    by simp
  with r found show ?thesis
    by (simp add: install_no_defaults)
qed

section \<open>The registries\<close>

lemma reducer_injections_none:
  "\<forall>e\<in>set es. \<forall>t a b c. e \<noteq> InjectReducer t a b c \<Longrightarrow> reducer_injections es = []"
  by (induction es rule: reducer_injections.induct) auto

lemma saga_injections_none:
  "\<forall>e\<in>set es. \<forall>t a b. e \<noteq> InjectSaga t a b \<Longrightarrow> saga_injections es = []"
  by (induction es rule: saga_injections.induct) auto

lemma writes_to_none:
  "\<forall>e\<in>set es. \<forall>t ok. e \<noteq> Fs (WriteFile p t) ok \<Longrightarrow> writes_to p es = []"
  by (induction p es rule: writes_to.induct) auto

lemma staging_event_quiet:
  assumes "\<forall>e\<in>set es. staging_event idx e"
  shows "reducer_injections es = []" and "saga_injections es = []"
    and "p \<noteq> idx \<Longrightarrow> writes_to p es = []"
proof -
  show "reducer_injections es = []"
    using assms by (intro reducer_injections_none) auto
  show "saga_injections es = []"
    using assms by (intro saga_injections_none) auto
  show "writes_to p es = []" if "p \<noteq> idx"
    using assms that by (intro writes_to_none) auto
qed


lemma prologue_quiet [simp]:
  "reducer_injections (prologue env d meta) = []"
  "saga_injections (prologue env d meta) = []"
  "writes_to p (prologue env d meta) = []"
  by (simp_all add: prologue_def)



lemma rewrite_checks_resolve:
  assumes "\<forall>ns\<in>set (namespaces meta).
           isExisting env (path_join env [path_join env [d, ''modules''], fst ns, ''reducer.js'']) w1 = None"
    and "namespaces meta \<noteq> [] \<longrightarrow>
           isExisting env (path_join env [path_join env [d, ''modules''],
             fst (last (namespaces meta)), ''sagas.js'']) w1 = None"
  shows "rejection (run_tasks env (closure_of env d meta tree) sched (rewrite_tasks meta)
           ((init_state w1)\<lparr>trace := prologue env d meta,
              globalReducerSourceCode := reducersSourceCode tree,
              globalSagasSourceCode := sagasSourceCode tree, rejection := None\<rparr>)) = None"
  unfolding rewrite_tasks_def
proof (rule rewrite_group_resolves)
  let ?cx = "closure_of env d meta tree"
  let ?st0 = "(init_state w1)\<lparr>trace := prologue env d meta,
            globalReducerSourceCode := reducersSourceCode tree,
            globalSagasSourceCode := sagasSourceCode tree, rejection := None\<rparr>"
  show "rejection ?st0 = None" by simp
  show "\<forall>ns\<in>set (namespaces meta).
     isExisting env (path_join env [modulesSrcDirPath ?cx, fst ns, ''reducer.js'']) (world ?st0) = None"
    using assms(1) by (simp add: closure_of_def init_state_def)
  show "namespaces meta \<noteq> [] \<longrightarrow> isExisting env (moduleSagasFilePath ?cx) (world ?st0) = None"
    using assms(2) by (simp add: closure_of_def init_state_def sagas_path_after_loop_last)
qed

lemma resolved_checks_injections:
  assumes "dirPath opts = Some d"
    and "readJson env (path_join env [d, ''structor-namespaces.json'']) w = Inr meta"
    and "installDependencies env (dependencies meta) w = (None, w1)"
    and "getComponentTree env w1 = Inr tree"
    and run: "installFromLocalDir env sch opts (init_state w) = (r, st')"
    and resolves: "rejection (run_tasks env (closure_of env d meta tree) (rewriteOrder sch)
           (rewrite_tasks meta)
           ((init_state w1)\<lparr>trace := prologue env d meta,
              globalReducerSourceCode := reducersSourceCode tree,
              globalSagasSourceCode := sagasSourceCode tree, rejection := None\<rparr>)) = None"
  shows "mset (reducer_injections (trace st'))
           = image_mset (reducer_injection_of env) (mset (namespaces meta)) \<and>
         mset (saga_injections (trace st'))
           = image_mset (saga_injection_of env) (mset (namespaces meta)) \<and>
         (\<exists>ok. Fs (WriteFile (reducersFilePath tree)
                  (apply_reducer_injections env (reducersSourceCode tree)
                     (reducer_injections (trace st')))) ok \<in> set (trace st') \<and>
              (ok \<longrightarrow> (\<exists>ok'. Fs (WriteFile (sagasFilePath tree)
                  (apply_saga_injections env (sagasSourceCode tree)
                     (saga_injections (trace st')))) ok' \<in> set (trace st'))))"
  using assms(1-5)
proof (cases rule: install_after_rewrite)
  case (rejected evs e)
  with resolves show ?thesis by simp
next
  case (written evs ok1 rest)
  from written(5) have q: "reducer_injections rest = [] \<and> saga_injections rest = []"
    by (elim disjE exE conjE) (simp_all add: staging_event_quiet)
  have ri: "reducer_injections (trace st') = reducer_injections evs"
    and si: "saga_injections (trace st') = saga_injections evs"
    using q by (simp_all add: written(4) reducer_injections_append saga_injections_append)
  from written(5) have "ok1 \<longrightarrow> (\<exists>ok'. Fs (WriteFile (sagasFilePath tree)
            (apply_saga_injections env (sagasSourceCode tree) (saga_injections evs))) ok' \<in> set rest)"
    by auto
  then have w2: "ok1 \<longrightarrow> (\<exists>ok'. Fs (WriteFile (sagasFilePath tree)
            (apply_saga_injections env (sagasSourceCode tree) (saga_injections evs))) ok'
              \<in> set (trace st'))"
    by (auto simp: written(4))
  have w1: "Fs (WriteFile (reducersFilePath tree)
             (apply_reducer_injections env (reducersSourceCode tree) (reducer_injections evs))) ok1
              \<in> set (trace st')"
    by (simp add: written(4))
  show ?thesis
    unfolding ri si using written(2,3) w1 w2 by blast
qed

text \<open>
  Claim C2. In a run of \<^verbatim>\<open>installFromLocalDir\<close> that has read the manifest, installed the
  dependencies and read the component tree, and in which \<^verbatim>\<open>reducer.js\<close> and \<^verbatim>\<open>sagas.js\<close>
  exist for every namespace of the manifest, whatever the order in which the concurrent
  calls complete: the reducer injections of the log are, one for each namespace \<open>prop\<close>
  with \<^verbatim>\<open>reducerPropName\<close> \<open>r\<close>, the injection of symbol \<open>r\<close>, identifier \<^verbatim>\<open>${r}Reducer\<close> and
  import path \<^verbatim>\<open>modules/prop/reducer.js\<close>; the side-effect injections are, one for each
  namespace, the injection of identifier \<^verbatim>\<open>${prop}Sagas\<close> and import path
  \<^verbatim>\<open>modules/prop/sagas.js\<close> (this call has no symbol argument); the reducer registry file
  is written with the text these reducer injections give, and, when that write resolves,
  the side-effect registry file is written with the text the side-effect injections give.
\<close>

theorem manifest_injections:
  assumes "dirPath opts = Some d"
    and "readJson env (path_join env [d, ''structor-namespaces.json'']) w = Inr meta"
    and "installDependencies env (dependencies meta) w = (None, w1)"
    and "getComponentTree env w1 = Inr tree"
    and "\<forall>ns\<in>set (namespaces meta).
           isExisting env (path_join env [path_join env [d, ''modules''], fst ns, ''reducer.js'']) w1 = None \<and>
           isExisting env (path_join env [path_join env [d, ''modules''], fst ns, ''sagas.js'']) w1 = None"
  shows "mset (reducer_injections (trace (snd (installFromLocalDir env sch opts (init_state w)))))
           = image_mset (reducer_injection_of env) (mset (namespaces meta)) \<and>
         mset (saga_injections (trace (snd (installFromLocalDir env sch opts (init_state w)))))
           = image_mset (saga_injection_of env) (mset (namespaces meta)) \<and>
         (\<exists>ok. Fs (WriteFile (reducersFilePath tree)
                  (apply_reducer_injections env (reducersSourceCode tree)
                     (reducer_injections (trace (snd (installFromLocalDir env sch opts (init_state w))))))) ok
                \<in> set (trace (snd (installFromLocalDir env sch opts (init_state w)))) \<and>
              (ok \<longrightarrow> (\<exists>ok'. Fs (WriteFile (sagasFilePath tree)
                  (apply_saga_injections env (sagasSourceCode tree)
                     (saga_injections (trace (snd (installFromLocalDir env sch opts (init_state w))))))) ok'
                \<in> set (trace (snd (installFromLocalDir env sch opts (init_state w)))))))"
proof -
  obtain r st' where run: "installFromLocalDir env sch opts (init_state w) = (r, st')"
    by (cases "installFromLocalDir env sch opts (init_state w)")
  have reducers: "\<forall>ns\<in>set (namespaces meta).
      isExisting env (path_join env [path_join env [d, ''modules''], fst ns, ''reducer.js'']) w1 = None"
    using assms(5) by blast
  have sagas: "namespaces meta \<noteq> [] \<longrightarrow>
      isExisting env (path_join env [path_join env [d, ''modules''],
        fst (last (namespaces meta)), ''sagas.js'']) w1 = None"
    using assms(5) last_in_set by blast
  from resolved_checks_injections [OF assms(1-4) run rewrite_checks_resolve [OF reducers sagas]] run
  show ?thesis by simp
qed

theorem manifest_injections_witness:
  "isExisting auth_env ''b/modules/auth/reducer.js'' auth_world = None \<and>
   isExisting auth_env ''b/modules/auth/sagas.js'' auth_world = None \<and>
   reducer_injections (trace (snd auth_run))
     = [(''auth'', ''authReducer'', ''modules/auth/reducer.js'')] \<and>
   saga_injections (trace (snd auth_run)) = [(''authSagas'', ''modules/auth/sagas.js'')] \<and>
   Fs (WriteFile ''app/reducers.js''
         ''import authReducer from modules/auth/reducer.js; auth: authReducer, '') True
     \<in> set (trace (snd auth_run)) \<and>
   Fs (WriteFile ''app/sagas.js''
         ''import authSagas from modules/auth/sagas.js; authSagas, '') True
     \<in> set (trace (snd auth_run))"
proof -
  have files: "isExisting auth_env ''b/modules/auth/reducer.js'' auth_world = None"
    "isExisting auth_env ''b/modules/auth/sagas.js'' auth_world = None"
    by (simp_all add: sample_env_sel auth_world_def)
  then have "\<forall>ns\<in>set (namespaces auth_manifest).
      isExisting auth_env (path_join auth_env [path_join auth_env [''b'', ''modules''], fst ns,
        ''reducer.js'']) auth_world = None \<and>
      isExisting auth_env (path_join auth_env [path_join auth_env [''b'', ''modules''], fst ns,
        ''sagas.js'']) auth_world = None"
    by (simp add: auth_manifest_def sample_env_sel(1))
  from manifest_injections [OF auth_naming this, of in_order] files show ?thesis
    by (simp add: install_auth)
qed

text \<open>
  Claim C9. The variable \<^verbatim>\<open>moduleSagasFilePath\<close> is declared outside the \<^verbatim>\<open>forOwn\<close> callback
  (line 337) and read by callbacks that run after the loop has ended, so every task
  checks the \<^verbatim>\<open>sagas.js\<close> of the last namespace of the manifest. Hence, in a run that has
  read the manifest, installed the dependencies and read the component tree: when
  \<^verbatim>\<open>reducer.js\<close> exists for every namespace and \<^verbatim>\<open>sagas.js\<close> exists for the last one, every
  namespace is injected and the reducer registry file is written (and the side-effect
  registry file after it), whether or not \<^verbatim>\<open>sagas.js\<close> exists for the other namespaces.
\<close>

theorem sagas_check_reads_last_namespace:
  assumes "dirPath opts = Some d"
    and "readJson env (path_join env [d, ''structor-namespaces.json'']) w = Inr meta"
    and "installDependencies env (dependencies meta) w = (None, w1)"
    and "getComponentTree env w1 = Inr tree"
    and "\<forall>ns\<in>set (namespaces meta).
           isExisting env (path_join env [path_join env [d, ''modules''], fst ns, ''reducer.js'']) w1 = None"
    and "namespaces meta \<noteq> []"
    and "isExisting env (path_join env [path_join env [d, ''modules''],
             fst (last (namespaces meta)), ''sagas.js'']) w1 = None"
    and "installFromLocalDir env sch opts (init_state w) = (r, st)"
  shows "mset (reducer_injections (trace st))
           = image_mset (reducer_injection_of env) (mset (namespaces meta)) \<and>
         mset (saga_injections (trace st))
           = image_mset (saga_injection_of env) (mset (namespaces meta)) \<and>
         (\<exists>ok. Fs (WriteFile (reducersFilePath tree)
                  (apply_reducer_injections env (reducersSourceCode tree)
                     (reducer_injections (trace st)))) ok \<in> set (trace st) \<and>
              (ok \<longrightarrow> (\<exists>ok'. Fs (WriteFile (sagasFilePath tree)
                  (apply_saga_injections env (sagasSourceCode tree)
                     (saga_injections (trace st)))) ok' \<in> set (trace st))))"
  using assms(5-7)
  by (intro resolved_checks_injections [OF assms(1-4) assms(8)] rewrite_checks_resolve) simp_all

theorem sagas_check_reads_last_namespace_witness:
  "isExisting two_env ''b/modules/a/sagas.js'' two_world = Some ''ENOENT'' \<and>
   (\<forall>ok. Fs (IsExisting ''b/modules/a/sagas.js'') ok \<notin> set (trace (snd two_run))) \<and>
   fst two_run = Inr () \<and>
   Fs (WriteFile ''app/reducers.js''
         ''import bReducer from modules/b/reducer.js; import aReducer from modules/a/reducer.js; a: aReducer, b: bReducer, '')
      True \<in> set (trace (snd two_run)) \<and>
   Fs (WriteFile ''app/sagas.js''
         ''import bSagas from modules/b/sagas.js; import aSagas from modules/a/sagas.js; aSagas, bSagas, '')
      True \<in> set (trace (snd two_run))"
proof -
  have missing: "isExisting two_env ''b/modules/a/sagas.js'' two_world = Some ''ENOENT''"
    by (simp add: sample_env_sel two_world_def)
  have reducers: "\<forall>ns\<in>set (namespaces two_manifest).
      isExisting two_env (path_join two_env [path_join two_env [''b'', ''modules''], fst ns,
        ''reducer.js'']) two_world = None"
    by (simp add: sample_env_sel two_manifest_def two_world_def)
  have ne: "namespaces two_manifest \<noteq> []"
    by (simp add: two_manifest_def)
  have sagas: "isExisting two_env (path_join two_env [path_join two_env [''b'', ''modules''],
             fst (last (namespaces two_manifest)), ''sagas.js'']) two_world = None"
    by (simp add: sample_env_sel two_manifest_def two_world_def)
  from sagas_check_reads_last_namespace [OF auth_naming(1) two_naming reducers ne sagas install_two]
    missing
  show ?thesis
    by (simp add: install_two)
qed




end
